theory Spec2Isabelle
  imports Main "HOL-Library.Word"
begin

unbundle bit_operations_syntax

section \<open>Primitive types of package types\<close>

type_synonym byte = "8 word"
type_synonym u64 = "64 word"

text \<open>Go's \<^verbatim>\<open>int\<close> is a 64-bit two's complement integer; \<^verbatim>\<open>uint64(i)\<close> keeps the bits.\<close>
type_synonym go_int = "64 word"

text \<open>\<^verbatim>\<open>[32]byte\<close> and \<^verbatim>\<open>[64]byte\<close>: arrays whose length is part of the type.\<close>

typedef bytes32 = "{bs :: byte list. length bs = 32}"
  by (rule exI [of _ "replicate 32 0"]) simp

typedef bytes64 = "{bs :: byte list. length bs = 64}"
  by (rule exI [of _ "replicate 64 0"]) simp

type_synonym Hash256 = bytes32
type_synonym Address = bytes32
type_synonym BlockID = bytes32
type_synonym TransactionID = bytes32
type_synonym PublicKey = bytes32
type_synonym Signature = bytes64

text \<open>Currency is a 128-bit unsigned integer (its declaration is in currency.go).\<close>
type_synonym Currency = "128 word"

text \<open>
  \<^verbatim>\<open>HashBytes\<close> is \<^verbatim>\<open>blake2b.Sum256\<close>, a function of another module. Every function
  that hashes takes it as its first argument \<open>H\<close>.
\<close>
type_synonym hasher = "byte list \<Rightarrow> Hash256"

definition EphemeralLeafIndex :: u64 where
  "EphemeralLeafIndex = - 1"

definition byte_of_char :: "char \<Rightarrow> byte" where
  "byte_of_char c = of_char c"

definition bytes_of_string :: "string \<Rightarrow> byte list" where
  "bytes_of_string s = map byte_of_char s"

text \<open>The \<open>n\<close> low bytes of a word, least significant first.\<close>
definition le_bytes :: "nat \<Rightarrow> 'a::len word \<Rightarrow> byte list" where
  "le_bytes n w = map (\<lambda>k. ucast (drop_bit (8 * k) w)) [0..<n]"

text \<open>
  \<^verbatim>\<open>copy(buf[off:], src)\<close>: overwrites \<open>buf\<close> from \<open>off\<close> with as much of \<open>src\<close> as fits;
  the length of \<open>buf\<close> never changes.
\<close>
definition copy_at :: "nat \<Rightarrow> byte list \<Rightarrow> byte list \<Rightarrow> byte list" where
  "copy_at off src buf =
     take off buf @ take (length buf - off) src @ drop (off + length src) buf"

text \<open>\<^verbatim>\<open>binary.LittleEndian.PutUint64(buf[off:], v)\<close>, for \<open>off + 8 \<le> length buf\<close>.\<close>
definition PutUint64_le :: "nat \<Rightarrow> u64 \<Rightarrow> byte list \<Rightarrow> byte list" where
  "PutUint64_le off v buf = copy_at off (le_bytes 8 v) buf"

section \<open>Data model (types.go)\<close>

record ChainIndex =
  ci_Height :: u64
  ci_ID :: BlockID

record SiacoinOutput =
  sco_Value :: Currency
  sco_Address :: Address

record SiafundOutput =
  sfo_Value :: u64
  sfo_Address :: Address

record FileContract =
  Filesize :: u64
  FileMerkleRoot :: Hash256
  fc_WindowStart :: u64
  WindowEnd :: u64
  RenterOutput :: SiacoinOutput
  HostOutput :: SiacoinOutput
  MissedHostValue :: Currency
  TotalCollateral :: Currency
  RenterPublicKey :: PublicKey
  HostPublicKey :: PublicKey
  RevisionNumber :: u64
  fc_RenterSignature :: Signature
  fc_HostSignature :: Signature

record ElementID =
  Source :: Hash256
  Index :: u64

record StateElement =
  se_ID :: ElementID
  LeafIndex :: u64
  MerkleProof :: "Hash256 list"

text \<open>Go's embedded structs are fields named after their type.\<close>

record SiacoinElement =
  sce_StateElement :: StateElement
  sce_SiacoinOutput :: SiacoinOutput
  MaturityHeight :: u64

record SiafundElement =
  sfe_StateElement :: StateElement
  sfe_SiafundOutput :: SiafundOutput
  ClaimStart :: Currency

record FileContractElement =
  fce_StateElement :: StateElement
  fce_FileContract :: FileContract

text \<open>
  Modelled from the spec: the SpendPolicy variant (policy.go is not among the sources).
  The spec lists \<open>Above(height)\<close>, \<open>PublicKey(pk)\<close>, \<open>Threshold(n, [policy])\<close>,
  \<open>UnlockConditions{timelock, public_keys, signatures_required}\<close> and \<open>AnyoneCanSpend\<close>.
\<close>
datatype SpendPolicy =
    PolicyAbove u64
  | PolicyPublicKey PublicKey
  | PolicyThreshold nat "SpendPolicy list"
  | PolicyUnlockConditions u64 "PublicKey list" nat
  | AnyoneCanSpend

record SiacoinInput =
  sci_Parent :: SiacoinElement
  sci_SpendPolicy :: SpendPolicy
  sci_Signatures :: "Signature list"

record SiafundInput =
  sfi_Parent :: SiafundElement
  ClaimAddress :: Address
  sfi_SpendPolicy :: SpendPolicy
  sfi_Signatures :: "Signature list"

record FileContractRevision =
  rev_Parent :: FileContractElement
  Revision :: FileContract

record FileContractRenewal =
  FinalRevision :: FileContract
  InitialRevision :: FileContract
  RenterRollover :: Currency
  HostRollover :: Currency
  ren_RenterSignature :: Signature
  ren_HostSignature :: Signature

record StorageProof =
  sp_WindowStart :: ChainIndex
  WindowProof :: "Hash256 list"
  Leaf :: bytes64
  Proof :: "Hash256 list"

record FileContractResolution =
  res_Parent :: FileContractElement
  Renewal :: FileContractRenewal
  res_StorageProof :: StorageProof
  Finalization :: FileContract

record Attestation =
  att_PublicKey :: PublicKey
  att_Key :: string
  att_Value :: "byte list"
  att_Signature :: Signature

record Transaction =
  SiacoinInputs :: "SiacoinInput list"
  SiacoinOutputs :: "SiacoinOutput list"
  SiafundInputs :: "SiafundInput list"
  SiafundOutputs :: "SiafundOutput list"
  FileContracts :: "FileContract list"
  FileContractRevisions :: "FileContractRevision list"
  FileContractResolutions :: "FileContractResolution list"
  Attestations :: "Attestation list"
  ArbitraryData :: "byte list"
  NewFoundationAddress :: Address
  MinerFee :: Currency

text \<open>
  \<^verbatim>\<open>time.Time\<close> as far as the sources observe it: \<^verbatim>\<open>Unix()\<close> returns the whole seconds since
  the epoch as an \<^verbatim>\<open>int64\<close>; the nanoseconds within the second are a separate component.
\<close>
record Time =
  unix_sec :: "64 word"
  nsec :: "32 word"

definition Unix :: "Time \<Rightarrow> 64 word" where
  "Unix t = unix_sec t"

record BlockHeader =
  bh_Height :: u64
  ParentID :: BlockID
  Nonce :: u64
  Timestamp :: Time
  MinerAddress :: Address
  Commitment :: Hash256

section \<open>The encoder (encoding.go)\<close>

text \<open>
  Modelled from the spec: the canonical encoder of encoding.go, which is not among the
  sources. The spec fixes it as: fixed-width little-endian integers, length-prefixed byte
  strings and sequences (the prefix is a u64 little-endian count), struct fields in
  declaration order, domain-separation prefixes written as length-prefixed strings.
  The encoder appends to a buffer; each function below returns the bytes it appends.
\<close>

definition WriteUint64 :: "u64 \<Rightarrow> byte list" where
  "WriteUint64 v = le_bytes 8 v"

definition WritePrefix :: "nat \<Rightarrow> byte list" where
  "WritePrefix n = WriteUint64 (of_nat n)"

definition WriteBytes :: "byte list \<Rightarrow> byte list" where
  "WriteBytes b = WritePrefix (length b) @ b"

definition WriteString :: "string \<Rightarrow> byte list" where
  "WriteString s = WriteBytes (bytes_of_string s)"

definition enc_Hash256 :: "bytes32 \<Rightarrow> byte list" where
  "enc_Hash256 h = Rep_bytes32 h"

definition enc_Signature :: "bytes64 \<Rightarrow> byte list" where
  "enc_Signature s = Rep_bytes64 s"

definition enc_Currency :: "Currency \<Rightarrow> byte list" where
  "enc_Currency c = le_bytes 16 c"

definition enc_ChainIndex :: "ChainIndex \<Rightarrow> byte list" where
  "enc_ChainIndex ci = WriteUint64 (ci_Height ci) @ enc_Hash256 (ci_ID ci)"

definition enc_ElementID :: "ElementID \<Rightarrow> byte list" where
  "enc_ElementID eid = enc_Hash256 (Source eid) @ WriteUint64 (Index eid)"

definition enc_SiacoinOutput :: "SiacoinOutput \<Rightarrow> byte list" where
  "enc_SiacoinOutput out = enc_Currency (sco_Value out) @ enc_Hash256 (sco_Address out)"

definition enc_SiafundOutput :: "SiafundOutput \<Rightarrow> byte list" where
  "enc_SiafundOutput out = WriteUint64 (sfo_Value out) @ enc_Hash256 (sfo_Address out)"

definition enc_FileContract :: "FileContract \<Rightarrow> byte list" where
  "enc_FileContract fc =
     WriteUint64 (Filesize fc) @ enc_Hash256 (FileMerkleRoot fc) @
     WriteUint64 (fc_WindowStart fc) @ WriteUint64 (WindowEnd fc) @
     enc_SiacoinOutput (RenterOutput fc) @ enc_SiacoinOutput (HostOutput fc) @
     enc_Currency (MissedHostValue fc) @ enc_Currency (TotalCollateral fc) @
     enc_Hash256 (RenterPublicKey fc) @ enc_Hash256 (HostPublicKey fc) @
     WriteUint64 (RevisionNumber fc) @
     enc_Signature (fc_RenterSignature fc) @ enc_Signature (fc_HostSignature fc)"

definition enc_FileContractRenewal :: "FileContractRenewal \<Rightarrow> byte list" where
  "enc_FileContractRenewal r =
     enc_FileContract (FinalRevision r) @ enc_FileContract (InitialRevision r) @
     enc_Currency (RenterRollover r) @ enc_Currency (HostRollover r) @
     enc_Signature (ren_RenterSignature r) @ enc_Signature (ren_HostSignature r)"

definition enc_Attestation :: "Attestation \<Rightarrow> byte list" where
  "enc_Attestation a =
     enc_Hash256 (att_PublicKey a) @ WriteString (att_Key a) @
     WriteBytes (att_Value a) @ enc_Signature (att_Signature a)"

section \<open>Transaction.ID and the element IDs\<close>

text \<open>
  The bytes written to the hasher by \<^verbatim>\<open>Transaction.ID\<close>, statement by statement; each
  \<^verbatim>\<open>for ... range\<close> loop is the concatenation of what its body writes per element.
\<close>
definition Transaction_ID_preimage :: "Transaction \<Rightarrow> byte list" where
  "Transaction_ID_preimage txn =
     WriteString ''sia/id/transaction'' @
     WritePrefix (length (SiacoinInputs txn)) @
     concat (map (\<lambda>inp. enc_ElementID (se_ID (sce_StateElement (sci_Parent inp))))
       (SiacoinInputs txn)) @
     WritePrefix (length (SiacoinOutputs txn)) @
     concat (map enc_SiacoinOutput (SiacoinOutputs txn)) @
     WritePrefix (length (SiafundInputs txn)) @
     concat (map (\<lambda>inp. enc_ElementID (se_ID (sfe_StateElement (sfi_Parent inp))))
       (SiafundInputs txn)) @
     WritePrefix (length (SiafundOutputs txn)) @
     concat (map enc_SiafundOutput (SiafundOutputs txn)) @
     WritePrefix (length (FileContracts txn)) @
     concat (map enc_FileContract (FileContracts txn)) @
     WritePrefix (length (FileContractRevisions txn)) @
     concat (map (\<lambda>fcr. enc_ElementID (se_ID (fce_StateElement (rev_Parent fcr))) @
                        enc_FileContract (Revision fcr))
       (FileContractRevisions txn)) @
     WritePrefix (length (FileContractResolutions txn)) @
     concat (map (\<lambda>fcr. enc_ElementID (se_ID (fce_StateElement (res_Parent fcr))) @
                        enc_FileContractRenewal (Renewal fcr) @
                        enc_ChainIndex (sp_WindowStart (res_StorageProof fcr)) @
                        enc_FileContract (Finalization fcr))
       (FileContractResolutions txn)) @
     concat (map enc_Attestation (Attestations txn)) @
     WriteBytes (ArbitraryData txn) @
     enc_Hash256 (NewFoundationAddress txn) @
     enc_Currency (MinerFee txn)"

definition Transaction_ID :: "hasher \<Rightarrow> Transaction \<Rightarrow> TransactionID" where
  "Transaction_ID H txn = H (Transaction_ID_preimage txn)"

definition SiacoinOutputID :: "hasher \<Rightarrow> Transaction \<Rightarrow> go_int \<Rightarrow> ElementID" where
  "SiacoinOutputID H txn i = \<lparr>Source = Transaction_ID H txn, Index = i\<rparr>"

definition SiafundClaimOutputID :: "hasher \<Rightarrow> Transaction \<Rightarrow> go_int \<Rightarrow> ElementID" where
  "SiafundClaimOutputID H txn i =
     \<lparr>Source = Transaction_ID H txn,
      Index = of_nat (length (SiacoinOutputs txn)) + i\<rparr>"

definition SiafundOutputID :: "hasher \<Rightarrow> Transaction \<Rightarrow> go_int \<Rightarrow> ElementID" where
  "SiafundOutputID H txn i =
     \<lparr>Source = Transaction_ID H txn,
      Index = of_nat (length (SiacoinOutputs txn)) + of_nat (length (SiafundInputs txn)) + i\<rparr>"

definition FileContractID :: "hasher \<Rightarrow> Transaction \<Rightarrow> go_int \<Rightarrow> ElementID" where
  "FileContractID H txn i =
     \<lparr>Source = Transaction_ID H txn,
      Index = of_nat (length (SiacoinOutputs txn)) + of_nat (length (SiafundInputs txn)) +
              of_nat (length (SiafundOutputs txn)) + i\<rparr>"

datatype go_panic = IndexOutOfRange | DivideByZero | DivideOverflow

text \<open>
  \<^verbatim>\<open>EphemeralSiacoinElement\<close> reads \<^verbatim>\<open>txn.SiacoinOutputs[0]\<close>, which panics on a
  transaction without siacoin outputs; the fields the composite literal leaves out
  (\<^verbatim>\<open>MerkleProof\<close>, \<^verbatim>\<open>MaturityHeight\<close>) are zero values.
\<close>
definition EphemeralSiacoinElement ::
  "hasher \<Rightarrow> Transaction \<Rightarrow> go_int \<Rightarrow> go_panic + SiacoinElement" where
  "EphemeralSiacoinElement H txn i =
     (case SiacoinOutputs txn of
        [] \<Rightarrow> Inl IndexOutOfRange
      | out0 # _ \<Rightarrow>
          Inr \<lparr>sce_StateElement =
                 \<lparr>se_ID = SiacoinOutputID H txn 0,
                  LeafIndex = EphemeralLeafIndex,
                  MerkleProof = []\<rparr>,
               sce_SiacoinOutput = out0,
               MaturityHeight = 0\<rparr>)"

section \<open>BlockHeader.ID\<close>

definition BlockHeader_ID_preimage :: "BlockHeader \<Rightarrow> byte list" where
  "BlockHeader_ID_preimage h =
     (let buf = replicate (32 + 8 + 8 + 32) 0;
          buf = copy_at 0 (bytes_of_string ''sia/id/block'') buf;
          buf = PutUint64_le 32 (Nonce h) buf;
          buf = PutUint64_le 40 (Unix (Timestamp h)) buf;
          buf = copy_at 48 (Rep_bytes32 (Commitment h)) buf
      in buf)"

definition BlockHeader_ID :: "hasher \<Rightarrow> BlockHeader \<Rightarrow> BlockID" where
  "BlockHeader_ID H h = H (BlockHeader_ID_preimage h)"

section \<open>Work arithmetic\<close>

text \<open>
  The functions of \<^verbatim>\<open>math/bits\<close> and \<^verbatim>\<open>encoding/binary\<close> that \<^verbatim>\<open>Work\<close> uses, as their
  documentation gives them: \<^verbatim>\<open>Add64\<close> and \<^verbatim>\<open>Sub64\<close> return the wrapped result and the
  carry (borrow) out, \<^verbatim>\<open>Mul64\<close> the high and low halves of the 128-bit product,
  \<^verbatim>\<open>Div64\<close> quotient and remainder of \<open>(hi, lo)\<close> by \<open>y\<close>, panicking for \<open>y = 0\<close> and for
  \<open>y \<le> hi\<close>.
\<close>

definition Add64 :: "u64 \<Rightarrow> u64 \<Rightarrow> u64 \<Rightarrow> u64 \<times> u64" where
  "Add64 x y carry =
     (x + y + carry, if 2 ^ 64 \<le> unat x + unat y + unat carry then 1 else 0)"

definition Sub64 :: "u64 \<Rightarrow> u64 \<Rightarrow> u64 \<Rightarrow> u64 \<times> u64" where
  "Sub64 x y borrow =
     (x - y - borrow, if unat x < unat y + unat borrow then 1 else 0)"

definition Mul64 :: "u64 \<Rightarrow> u64 \<Rightarrow> u64 \<times> u64" where
  "Mul64 x y = (of_nat ((unat x * unat y) div 2 ^ 64), x * y)"

definition Div64 :: "u64 \<Rightarrow> u64 \<Rightarrow> u64 \<Rightarrow> go_panic + (u64 \<times> u64)" where
  "Div64 hi lo y =
     (if y = 0 then Inl DivideByZero
      else if y \<le> hi then Inl DivideOverflow
      else Inr (of_nat ((unat hi * 2 ^ 64 + unat lo) div unat y),
                of_nat ((unat hi * 2 ^ 64 + unat lo) mod unat y)))"

text \<open>The \<open>n\<close> low bytes of a word, most significant first.\<close>
definition be_bytes :: "nat \<Rightarrow> 'a::len word \<Rightarrow> byte list" where
  "be_bytes n w = rev (le_bytes n w)"

text \<open>\<^verbatim>\<open>binary.BigEndian.Uint64(b)\<close> reads the first eight bytes of \<open>b\<close>.\<close>
definition BigEndian_Uint64 :: "byte list \<Rightarrow> u64" where
  "BigEndian_Uint64 b = foldl (\<lambda>acc x. acc * 256 + ucast x) 0 (take 8 b)"

text \<open>\<^verbatim>\<open>binary.BigEndian.PutUint64(buf[off:], v)\<close>, for \<open>off + 8 \<le> length buf\<close>.\<close>
definition BigEndian_PutUint64 :: "nat \<Rightarrow> u64 \<Rightarrow> byte list \<Rightarrow> byte list" where
  "BigEndian_PutUint64 off v buf = copy_at off (be_bytes 8 v) buf"

record Work =
  NumHashes :: bytes32

text \<open>
  The loops of \<^verbatim>\<open>Add\<close>, \<^verbatim>\<open>Sub\<close> and \<^verbatim>\<open>Mul64\<close> run \<open>i\<close> from 24 down to 0 in steps of 8;
  the loop state is the result array and the carry.
\<close>

function Work_Add_loop ::
  "byte list \<Rightarrow> byte list \<Rightarrow> int \<Rightarrow> byte list \<times> u64 \<Rightarrow> byte list \<times> u64" where
  "Work_Add_loop w v i (r, c) =
     (if 0 \<le> i then
        (let wi = BigEndian_Uint64 (drop (nat i) w);
             vi = BigEndian_Uint64 (drop (nat i) v);
             (sum, c') = Add64 wi vi c
         in Work_Add_loop w v (i - 8) (BigEndian_PutUint64 (nat i) sum r, c'))
      else (r, c))"
  by pat_completeness auto
termination
  by (relation "measure (\<lambda>(w, v, i, rc). nat (i + 8))") auto

definition Work_Add :: "Work \<Rightarrow> Work \<Rightarrow> Work" where
  "Work_Add w v =
     \<lparr>NumHashes = Abs_bytes32 (fst (Work_Add_loop (Rep_bytes32 (NumHashes w))
        (Rep_bytes32 (NumHashes v)) 24 (replicate 32 0, 0)))\<rparr>"

function Work_Sub_loop ::
  "byte list \<Rightarrow> byte list \<Rightarrow> int \<Rightarrow> byte list \<times> u64 \<Rightarrow> byte list \<times> u64" where
  "Work_Sub_loop w v i (r, c) =
     (if 0 \<le> i then
        (let wi = BigEndian_Uint64 (drop (nat i) w);
             vi = BigEndian_Uint64 (drop (nat i) v);
             (sum, c') = Sub64 wi vi c
         in Work_Sub_loop w v (i - 8) (BigEndian_PutUint64 (nat i) sum r, c'))
      else (r, c))"
  by pat_completeness auto
termination
  by (relation "measure (\<lambda>(w, v, i, rc). nat (i + 8))") auto

definition Work_Sub :: "Work \<Rightarrow> Work \<Rightarrow> Work" where
  "Work_Sub w v =
     \<lparr>NumHashes = Abs_bytes32 (fst (Work_Sub_loop (Rep_bytes32 (NumHashes w))
        (Rep_bytes32 (NumHashes v)) 24 (replicate 32 0, 0)))\<rparr>"

function Work_Mul64_loop ::
  "byte list \<Rightarrow> u64 \<Rightarrow> int \<Rightarrow> byte list \<times> u64 \<Rightarrow> byte list \<times> u64" where
  "Work_Mul64_loop w v i (r, c) =
     (if 0 \<le> i then
        (let wi = BigEndian_Uint64 (drop (nat i) w);
             (hi, prod) = Mul64 wi v;
             (prod, cc) = Add64 prod c 0
         in Work_Mul64_loop w v (i - 8) (BigEndian_PutUint64 (nat i) prod r, hi + cc))
      else (r, c))"
  by pat_completeness auto
termination
  by (relation "measure (\<lambda>(w, v, i, rc). nat (i + 8))") auto

definition Work_Mul64 :: "Work \<Rightarrow> u64 \<Rightarrow> Work" where
  "Work_Mul64 w v =
     \<lparr>NumHashes = Abs_bytes32 (fst (Work_Mul64_loop (Rep_bytes32 (NumHashes w)) v 24
        (replicate 32 0, 0)))\<rparr>"

text \<open>
  The loop of \<^verbatim>\<open>Div64\<close> runs \<open>i\<close> from 0 up to 24 in steps of 8 and carries the remainder;
  a panic of \<^verbatim>\<open>bits.Div64\<close> ends it.
\<close>

function Work_Div64_loop ::
  "byte list \<Rightarrow> u64 \<Rightarrow> nat \<Rightarrow> byte list \<times> u64 \<Rightarrow> go_panic + (byte list \<times> u64)" where
  "Work_Div64_loop w v i (r, rem) =
     (if i < length w then
        (let wi = BigEndian_Uint64 (drop i w)
         in case Div64 rem wi v of
              Inl p \<Rightarrow> Inl p
            | Inr (quo, rem') \<Rightarrow>
                Work_Div64_loop w v (i + 8) (BigEndian_PutUint64 i quo r, rem'))
      else Inr (r, rem))"
  by pat_completeness auto
termination
  by (relation "measure (\<lambda>(w, v, i, rc). length w - i)") auto

definition Work_Div64 :: "Work \<Rightarrow> u64 \<Rightarrow> go_panic + Work" where
  "Work_Div64 w v =
     (case Work_Div64_loop (Rep_bytes32 (NumHashes w)) v 0 (replicate 32 0, 0) of
        Inl p \<Rightarrow> Inl p
      | Inr (r, rem) \<Rightarrow> Inr \<lparr>NumHashes = Abs_bytes32 r\<rparr>)"

text \<open>A byte string read as a big-endian natural number.\<close>
definition be_nat :: "byte list \<Rightarrow> nat" where
  "be_nat bs = foldl (\<lambda>acc x. acc * 256 + unat x) 0 bs"

definition work_nat :: "Work \<Rightarrow> nat" where
  "work_nat w = be_nat (Rep_bytes32 (NumHashes w))"

section \<open>Text encoding of addresses\<close>

text \<open>
  \<^verbatim>\<open>encoding/hex\<close>: \<^verbatim>\<open>EncodeToString\<close> writes two lower-case digits per byte;
  \<^verbatim>\<open>Decode\<close> reads pairs of digits of either case into \<open>dst\<close> and stops at the first
  character that is no digit, reporting it together with the number of bytes written; an
  odd length is reported after the pairs are read. Writing past the end of \<open>dst\<close> panics.
\<close>

definition hextable :: string where
  "hextable = ''0123456789abcdef''"

definition EncodeToString :: "byte list \<Rightarrow> string" where
  "EncodeToString bs =
     concat (map (\<lambda>b. [hextable ! unat (drop_bit 4 b), hextable ! unat (b AND 15)]) bs)"

definition reverseHexTable :: "char \<Rightarrow> byte" where
  "reverseHexTable c =
     (let n = (of_char c :: nat) in
      if 48 \<le> n \<and> n \<le> 57 then of_nat (n - 48)
      else if 97 \<le> n \<and> n \<le> 102 then of_nat (n - 87)
      else if 65 \<le> n \<and> n \<le> 70 then of_nat (n - 55)
      else 255)"

datatype hex_error = InvalidByteError char | ErrLength

fun Decode_loop ::
  "byte list \<Rightarrow> nat \<Rightarrow> string \<Rightarrow> go_panic + (byte list \<times> nat \<times> hex_error option)" where
  "Decode_loop dst i (p # q # src) =
     (let a = reverseHexTable p; b = reverseHexTable q in
      if 15 < a then Inr (dst, i, Some (InvalidByteError p))
      else if 15 < b then Inr (dst, i, Some (InvalidByteError q))
      else if length dst \<le> i then Inl IndexOutOfRange
      else Decode_loop (dst[i := push_bit 4 a OR b]) (Suc i) src)"
| "Decode_loop dst i [p] =
     (if 15 < reverseHexTable p then Inr (dst, i, Some (InvalidByteError p))
      else Inr (dst, i, Some ErrLength))"
| "Decode_loop dst i [] = Inr (dst, i, None)"

definition Decode :: "byte list \<Rightarrow> string \<Rightarrow> go_panic + (byte list \<times> nat \<times> hex_error option)" where
  "Decode dst src = Decode_loop dst 0 src"

definition stringerHex :: "string \<Rightarrow> byte list \<Rightarrow> string" where
  "stringerHex prefix data = prefix @ '':'' @ EncodeToString data"

text \<open>\<^verbatim>\<open>bytes.TrimPrefix\<close>: the input without the prefix, or unchanged when it has none.\<close>
definition TrimPrefix :: "string \<Rightarrow> string \<Rightarrow> string" where
  "TrimPrefix s prefix =
     (if take (length prefix) s = prefix then drop (length prefix) s else s)"

definition Address_String :: "hasher \<Rightarrow> Address \<Rightarrow> string" where
  "Address_String H a =
     (let checksum = H (Rep_bytes32 a)
      in stringerHex ''addr'' (Rep_bytes32 a @ take 6 (Rep_bytes32 checksum)))"

definition Address_MarshalText :: "hasher \<Rightarrow> Address \<Rightarrow> string" where
  "Address_MarshalText H a = Address_String H a"

datatype text_error = DecodeFailed hex_error | UnexpectedEOF | BadChecksum

text \<open>
  \<^verbatim>\<open>Address.UnmarshalText\<close> returns the error and overwrites the receiver with the first
  32 decoded bytes whatever the error is; the model returns both.
\<close>
definition Address_UnmarshalText ::
  "hasher \<Rightarrow> string \<Rightarrow> go_panic + (Address \<times> text_error option)" where
  "Address_UnmarshalText H b =
     (case Decode (replicate (32 + 6) 0) (TrimPrefix b ''addr:'') of
        Inl p \<Rightarrow> Inl p
      | Inr (withChecksum, n, err) \<Rightarrow>
          (let e = (case err of
                      Some he \<Rightarrow> Some (DecodeFailed he)
                    | None \<Rightarrow>
                        if n \<noteq> length withChecksum then Some UnexpectedEOF
                        else if take 6 (Rep_bytes32 (H (take 32 withChecksum)))
                                \<noteq> drop 32 withChecksum
                        then Some BadChecksum
                        else None)
           in Inr (Abs_bytes32 (take 32 withChecksum), e)))"

section \<open>Consensus: block reward and spend policies\<close>

record State =
  st_Index :: ChainIndex

text \<open>
  Modelled from the spec: \<^verbatim>\<open>State.BlockReward\<close> (the consensus package's state.go is
  not among the sources; only its test is). The spec gives the schedule: at height \<open>h\<close> the
  reward is \<open>max(300000 - h, 30000)\<close>, in whole siacoins. The test calls it on a state
  whose index height is \<open>h - 1\<close> (in u64 arithmetic) to get the reward at height \<open>h\<close>.
\<close>
definition reward_at :: "nat \<Rightarrow> int" where
  "reward_at h = max (300000 - int h) 30000"

definition BlockReward :: "State \<Rightarrow> int" where
  "BlockReward s = reward_at (unat (ci_Height (st_Index s) + 1))"

text \<open>
  Modelled from the spec: the spend-policy evaluator (validation.go is not among the
  sources; only its test is). Inputs are the policy, the signature hash, the current
  height and the remaining signatures; the result is the signatures left over on success
  and \<open>None\<close> on failure. \<open>Above(h)\<close> succeeds iff the height is greater than \<open>h\<close>;
  \<open>AnyoneCanSpend\<close> succeeds; \<open>PublicKey(pk)\<close> succeeds iff a remaining signature
  verifies, and consumes it; \<open>Threshold(n, subs)\<close> tries the sub-policies in order,
  keeps the signatures a satisfied one consumed, and succeeds once \<open>n\<close> are satisfied;
  \<open>UnlockConditions\<close> succeeds iff the height has reached the timelock and at least
  the required number of keys have a verifying signature. Ed25519 verification is the
  parameter \<open>V\<close>.
\<close>
fun consume_sig :: "(Signature \<Rightarrow> bool) \<Rightarrow> Signature list \<Rightarrow> Signature list option" where
  "consume_sig ok [] = None"
| "consume_sig ok (s # ss) =
     (if ok s then Some ss else map_option ((#) s) (consume_sig ok ss))"

fun evaluate_spend_policy ::
  "(PublicKey \<Rightarrow> Hash256 \<Rightarrow> Signature \<Rightarrow> bool) \<Rightarrow> Hash256 \<Rightarrow> u64 \<Rightarrow> SpendPolicy \<Rightarrow>
   Signature list \<Rightarrow> Signature list option"
and evaluate_threshold ::
  "(PublicKey \<Rightarrow> Hash256 \<Rightarrow> Signature \<Rightarrow> bool) \<Rightarrow> Hash256 \<Rightarrow> u64 \<Rightarrow> nat \<Rightarrow> SpendPolicy list \<Rightarrow>
   Signature list \<Rightarrow> Signature list option" where
  "evaluate_spend_policy V sh height (PolicyAbove h) sigs =
     (if h < height then Some sigs else None)"
| "evaluate_spend_policy V sh height AnyoneCanSpend sigs = Some sigs"
| "evaluate_spend_policy V sh height (PolicyPublicKey pk) sigs = consume_sig (V pk sh) sigs"
| "evaluate_spend_policy V sh height (PolicyThreshold n subs) sigs =
     evaluate_threshold V sh height n subs sigs"
| "evaluate_spend_policy V sh height (PolicyUnlockConditions timelock keys required) sigs =
     (if timelock \<le> height \<and>
         required \<le> length (filter (\<lambda>k. list_ex (V k sh) sigs) keys)
      then Some sigs else None)"
| "evaluate_threshold V sh height n [] sigs = (if n = 0 then Some sigs else None)"
| "evaluate_threshold V sh height n (p # ps) sigs =
     (if n = 0 then Some sigs
      else case evaluate_spend_policy V sh height p sigs of
             Some sigs' \<Rightarrow> evaluate_threshold V sh height (n - 1) ps sigs'
           | None \<Rightarrow> evaluate_threshold V sh height n ps sigs)"

text \<open>The evaluator's observable result: success or failure at the state's height.\<close>
definition policy_succeeds ::
  "(PublicKey \<Rightarrow> Hash256 \<Rightarrow> Signature \<Rightarrow> bool) \<Rightarrow> State \<Rightarrow> Hash256 \<Rightarrow> SpendPolicy \<Rightarrow>
   Signature list \<Rightarrow> bool" where
  "policy_succeeds V s sh p sigs =
     (evaluate_spend_policy V sh (ci_Height (st_Index s)) p sigs \<noteq> None)"

section \<open>Auxiliary definitions for the statements\<close>

text \<open>A byte string read as a little-endian natural number.\<close>
definition le_nat :: "byte list \<Rightarrow> nat" where
  "le_nat bs = foldr (\<lambda>b acc. unat b + 256 * acc) bs 0"

text \<open>Two headers that differ in height, parent, miner address and the nanoseconds.\<close>
definition header_A :: BlockHeader where
  "header_A = \<lparr>bh_Height = 1, ParentID = Abs_bytes32 (replicate 32 1), Nonce = 7,
      Timestamp = \<lparr>unix_sec = 734600000, nsec = 0\<rparr>,
      MinerAddress = Abs_bytes32 (replicate 32 2), Commitment = Abs_bytes32 (replicate 32 3)\<rparr>"

definition header_B :: BlockHeader where
  "header_B = \<lparr>bh_Height = 2, ParentID = Abs_bytes32 (replicate 32 4), Nonce = 7,
      Timestamp = \<lparr>unix_sec = 734600000, nsec = 999999999\<rparr>,
      MinerAddress = Abs_bytes32 (replicate 32 5), Commitment = Abs_bytes32 (replicate 32 3)\<rparr>"

text \<open>Sample transactions and the erasure of signatures and accumulator proofs.\<close>

definition zero32 :: bytes32 where
  "zero32 = Abs_bytes32 (replicate 32 0)"

definition zero64 :: bytes64 where
  "zero64 = Abs_bytes64 (replicate 64 0)"

definition empty_txn :: Transaction where
  "empty_txn =
     \<lparr>SiacoinInputs = [], SiacoinOutputs = [], SiafundInputs = [], SiafundOutputs = [],
      FileContracts = [], FileContractRevisions = [], FileContractResolutions = [],
      Attestations = [], ArbitraryData = [], NewFoundationAddress = zero32, MinerFee = 0\<rparr>"

definition txn_two_outputs :: Transaction where
  "txn_two_outputs =
     empty_txn\<lparr>SiacoinOutputs :=
       [\<lparr>sco_Value = 1, sco_Address = Abs_bytes32 (replicate 32 1)\<rparr>,
        \<lparr>sco_Value = 2, sco_Address = Abs_bytes32 (replicate 32 2)\<rparr>]\<rparr>"

definition strip_StateElement :: "StateElement \<Rightarrow> StateElement" where
  "strip_StateElement se = se\<lparr>LeafIndex := 0, MerkleProof := []\<rparr>"

definition strip_SiacoinInput :: "SiacoinInput \<Rightarrow> SiacoinInput" where
  "strip_SiacoinInput inp =
     inp\<lparr>sci_Parent := (sci_Parent inp)\<lparr>sce_StateElement :=
            strip_StateElement (sce_StateElement (sci_Parent inp))\<rparr>,
         sci_Signatures := []\<rparr>"

definition strip_SiafundInput :: "SiafundInput \<Rightarrow> SiafundInput" where
  "strip_SiafundInput inp =
     inp\<lparr>sfi_Parent := (sfi_Parent inp)\<lparr>sfe_StateElement :=
            strip_StateElement (sfe_StateElement (sfi_Parent inp))\<rparr>,
         sfi_Signatures := []\<rparr>"

definition strip_Revision :: "FileContractRevision \<Rightarrow> FileContractRevision" where
  "strip_Revision fcr =
     fcr\<lparr>rev_Parent := (rev_Parent fcr)\<lparr>fce_StateElement :=
            strip_StateElement (fce_StateElement (rev_Parent fcr))\<rparr>\<rparr>"

definition strip_Resolution :: "FileContractResolution \<Rightarrow> FileContractResolution" where
  "strip_Resolution fcr =
     fcr\<lparr>res_Parent := (res_Parent fcr)\<lparr>fce_StateElement :=
            strip_StateElement (fce_StateElement (res_Parent fcr))\<rparr>\<rparr>"

definition strip_Transaction :: "Transaction \<Rightarrow> Transaction" where
  "strip_Transaction txn =
     txn\<lparr>SiacoinInputs := map strip_SiacoinInput (SiacoinInputs txn),
         SiafundInputs := map strip_SiafundInput (SiafundInputs txn),
         FileContractRevisions := map strip_Revision (FileContractRevisions txn),
         FileContractResolutions := map strip_Resolution (FileContractResolutions txn)\<rparr>"

definition zero_output :: SiacoinOutput where
  "zero_output = \<lparr>sco_Value = 5, sco_Address = zero32\<rparr>"

definition zero_contract :: FileContract where
  "zero_contract =
     \<lparr>Filesize = 0, FileMerkleRoot = zero32, fc_WindowStart = 0, WindowEnd = 0,
      RenterOutput = zero_output, HostOutput = zero_output, MissedHostValue = 0,
      TotalCollateral = 0, RenterPublicKey = zero32, HostPublicKey = zero32,
      RevisionNumber = 0, fc_RenterSignature = zero64, fc_HostSignature = zero64\<rparr>"

definition elem_fresh :: StateElement where
  "elem_fresh = \<lparr>se_ID = \<lparr>Source = zero32, Index = 3\<rparr>, LeafIndex = 17,
     MerkleProof = [zero32, zero32]\<rparr>"

definition elem_stale :: StateElement where
  "elem_stale = \<lparr>se_ID = \<lparr>Source = zero32, Index = 3\<rparr>, LeafIndex = 4, MerkleProof = [zero32]\<rparr>"

definition txn_with :: "StateElement \<Rightarrow> Signature list \<Rightarrow> Transaction" where
  "txn_with se sigs =
     empty_txn\<lparr>
       SiacoinInputs :=
         [\<lparr>sci_Parent = \<lparr>sce_StateElement = se, sce_SiacoinOutput = zero_output,
              MaturityHeight = 0\<rparr>,
           sci_SpendPolicy = AnyoneCanSpend, sci_Signatures = sigs\<rparr>],
       SiafundInputs :=
         [\<lparr>sfi_Parent = \<lparr>sfe_StateElement = se,
              sfe_SiafundOutput = \<lparr>sfo_Value = 1, sfo_Address = zero32\<rparr>, ClaimStart = 0\<rparr>,
           ClaimAddress = zero32, sfi_SpendPolicy = AnyoneCanSpend, sfi_Signatures = sigs\<rparr>],
       FileContractRevisions :=
         [\<lparr>rev_Parent = \<lparr>fce_StateElement = se, fce_FileContract = zero_contract\<rparr>,
           Revision = zero_contract\<rparr>],
       FileContractResolutions :=
         [\<lparr>res_Parent = \<lparr>fce_StateElement = se, fce_FileContract = zero_contract\<rparr>,
           Renewal = \<lparr>FinalRevision = zero_contract, InitialRevision = zero_contract,
             RenterRollover = 0, HostRollover = 0, ren_RenterSignature = zero64,
             ren_HostSignature = zero64\<rparr>,
           res_StorageProof = \<lparr>sp_WindowStart = \<lparr>ci_Height = 0, ci_ID = zero32\<rparr>,
             WindowProof = [], Leaf = zero64, Proof = []\<rparr>,
           Finalization = zero_contract\<rparr>]\<rparr>"

definition txn_arbitrary_112 :: Transaction where
  "txn_arbitrary_112 = empty_txn\<lparr>ArbitraryData := replicate 112 0\<rparr>"

definition txn_one_attestation :: Transaction where
  "txn_one_attestation =
     empty_txn\<lparr>Attestations :=
       [\<lparr>att_PublicKey = Abs_bytes32 (112 # replicate 31 0), att_Key = [], att_Value = [],
         att_Signature = zero64\<rparr>]\<rparr>"

section \<open>Basic facts\<close>

lemma length_Rep_bytes32 [simp]: "length (Rep_bytes32 h) = 32"
  using Rep_bytes32 [of h] by simp

lemma length_Rep_bytes64 [simp]: "length (Rep_bytes64 h) = 64"
  using Rep_bytes64 [of h] by simp

lemma length_le_bytes [simp]: "length (le_bytes n w) = n"
  by (simp add: le_bytes_def)

lemma length_copy_at [simp]: "length (copy_at off src buf) = length buf"
  by (auto simp: copy_at_def)

lemma length_PutUint64_le [simp]: "length (PutUint64_le off v buf) = length buf"
  by (simp add: PutUint64_le_def)

lemma length_BlockHeader_ID_preimage: "length (BlockHeader_ID_preimage h) = 80"
  by (simp add: BlockHeader_ID_preimage_def Let_def)


lemma copy_at_append:
  "length a = off \<Longrightarrow> length b = length src \<Longrightarrow> copy_at off src (a @ b @ c) = a @ src @ c"
  by (simp add: copy_at_def)

lemma BlockHeader_ID_preimage_eq:
  "BlockHeader_ID_preimage h =
     bytes_of_string ''sia/id/block'' @ replicate 20 0 @ le_bytes 8 (Nonce h) @
     le_bytes 8 (Unix (Timestamp h)) @ Rep_bytes32 (Commitment h)"
proof -
  let ?tag = "bytes_of_string ''sia/id/block''"
  have ltag: "length ?tag = 12" by (simp add: bytes_of_string_def)
  have z: "replicate (32 + 8 + 8 + 32) (0::byte) =
      [] @ replicate 12 0 @ (replicate 20 0 @ replicate 8 0 @ replicate 8 0 @ replicate 32 0)"
    by (simp add: replicate_add [symmetric])
  have s1: "copy_at 0 ?tag (replicate (32 + 8 + 8 + 32) 0) =
      ?tag @ replicate 20 0 @ replicate 8 0 @ replicate 8 0 @ replicate 32 0"
    unfolding z by (subst copy_at_append) (simp_all add: ltag)
  have s2: "PutUint64_le 32 v (?tag @ replicate 20 0 @ replicate 8 0 @ replicate 8 0 @ replicate 32 0) =
      ?tag @ replicate 20 0 @ le_bytes 8 v @ replicate 8 0 @ replicate 32 0" for v :: u64
    using copy_at_append [of "?tag @ replicate 20 0" 32 "replicate 8 0" "le_bytes 8 v" "replicate 8 0 @ replicate 32 0"]
    by (simp add: PutUint64_le_def ltag)
  have s3: "PutUint64_le 40 t (?tag @ replicate 20 0 @ le_bytes 8 v @ replicate 8 0 @ replicate 32 0) =
      ?tag @ replicate 20 0 @ le_bytes 8 v @ le_bytes 8 t @ replicate 32 0" for v t :: u64
    using copy_at_append [of "?tag @ replicate 20 0 @ le_bytes 8 v" 40 "replicate 8 0" "le_bytes 8 t" "replicate 32 0"]
    by (simp add: PutUint64_le_def ltag)
  have s4: "copy_at 48 c (?tag @ replicate 20 0 @ le_bytes 8 v @ le_bytes 8 t @ replicate 32 0) =
      ?tag @ replicate 20 0 @ le_bytes 8 v @ le_bytes 8 t @ c" if "length c = 32" for v t :: u64 and c
    using copy_at_append [of "?tag @ replicate 20 0 @ le_bytes 8 v @ le_bytes 8 t" 48 "replicate 32 0" c "[]"] that
    by (simp add: ltag)
  show ?thesis
    unfolding BlockHeader_ID_preimage_def Let_def s1 s2 s3
    by (rule s4) simp
qed

lemma le_bytes_Suc: "le_bytes (Suc n) w = ucast w # le_bytes n (drop_bit 8 w)"
proof -
  have "[0..<Suc n] = 0 # map Suc [0..<n]"
    by (simp add: upt_conv_Cons map_Suc_upt del: upt_Suc)
  then show ?thesis
    by (simp add: le_bytes_def comp_def drop_bit_drop_bit add.commute del: upt_Suc)
qed

lemma le_nat_le_bytes: "le_nat (le_bytes n w) = unat w mod 2 ^ (8 * n)"
proof (induction n arbitrary: w)
  case 0
  show ?case by (simp add: le_bytes_def le_nat_def)
next
  case (Suc n)
  have a: "unat (ucast w :: byte) = unat w mod 256"
    by (simp add: unsigned_ucast_eq take_bit_eq_mod)
  have b: "unat (drop_bit 8 w) = unat w div 256"
    unfolding unat_drop_bit_eq by (simp add: drop_bit_eq_div)
  have "le_nat (le_bytes (Suc n) w) = unat w mod 256 + 256 * (unat w div 256 mod 2 ^ (8 * n))"
    using Suc [of "drop_bit 8 w"] by (simp add: le_bytes_Suc le_nat_def a b)
  also have "\<dots> = unat w mod 2 ^ (8 * Suc n)"
    by (simp add: power_add mod_mult2_eq)
  finally show ?case .
qed

lemma le_nat_le_bytes_u64: "le_nat (le_bytes 8 (w::u64)) = unat w"
proof -
  have "unat w < 2 ^ 64" using unsigned_less [of w] by simp
  then show ?thesis by (simp add: le_nat_le_bytes)
qed

text \<open>
  Claim C5. The preimage hashed by \<^verbatim>\<open>BlockHeader.ID\<close> is 80 bytes long: the tag
  \<open>sia/id/block\<close> padded with zeros to 32 bytes, the nonce as a little-endian u64 at
  bytes 32 to 40, the Unix timestamp at bytes 40 to 48 and the commitment at bytes 48 to 80.
\<close>
theorem BlockHeader_ID_preimage_layout:
  "BlockHeader_ID H h = H (BlockHeader_ID_preimage h) \<and>
   length (BlockHeader_ID_preimage h) = 80 \<and>
   take 32 (BlockHeader_ID_preimage h) = bytes_of_string ''sia/id/block'' @ replicate 20 0 \<and>
   take 8 (drop 32 (BlockHeader_ID_preimage h)) = le_bytes 8 (Nonce h) \<and>
   le_nat (take 8 (drop 32 (BlockHeader_ID_preimage h))) = unat (Nonce h) \<and>
   take 8 (drop 40 (BlockHeader_ID_preimage h)) = le_bytes 8 (Unix (Timestamp h)) \<and>
   drop 48 (BlockHeader_ID_preimage h) = Rep_bytes32 (Commitment h)"
proof -
  have ltag: "length (bytes_of_string ''sia/id/block'') = 12"
    by (simp add: bytes_of_string_def)
  show ?thesis
    by (simp add: BlockHeader_ID_def BlockHeader_ID_preimage_eq ltag le_nat_le_bytes_u64)
qed

text \<open>
  Claim C10. Two headers with the same nonce, the same timestamp in whole Unix seconds
  and the same commitment have the same block ID, whatever their height, parent ID and
  miner address are.
\<close>
theorem BlockHeader_ID_depends_on:
  assumes "Nonce h1 = Nonce h2"
    and "Unix (Timestamp h1) = Unix (Timestamp h2)"
    and "Commitment h1 = Commitment h2"
  shows "BlockHeader_ID H h1 = BlockHeader_ID H h2"
  using assms by (simp add: BlockHeader_ID_def BlockHeader_ID_preimage_def)

lemma Abs_bytes32_eq_iff:
  "length xs = 32 \<Longrightarrow> length ys = 32 \<Longrightarrow> Abs_bytes32 xs = Abs_bytes32 ys \<longleftrightarrow> xs = ys"
  by (simp add: Abs_bytes32_inject)

theorem BlockHeader_ID_depends_on_witness:
  "\<forall>H. bh_Height header_A \<noteq> bh_Height header_B \<and> ParentID header_A \<noteq> ParentID header_B \<and>
     MinerAddress header_A \<noteq> MinerAddress header_B \<and>
     Timestamp header_A \<noteq> Timestamp header_B \<and>
     BlockHeader_ID H header_A = BlockHeader_ID H header_B"
proof
  fix H
  have "BlockHeader_ID H header_A = BlockHeader_ID H header_B"
    by (rule BlockHeader_ID_depends_on) (simp_all add: header_A_def header_B_def Unix_def)
  then show "bh_Height header_A \<noteq> bh_Height header_B \<and> ParentID header_A \<noteq> ParentID header_B \<and>
     MinerAddress header_A \<noteq> MinerAddress header_B \<and>
     Timestamp header_A \<noteq> Timestamp header_B \<and>
     BlockHeader_ID H header_A = BlockHeader_ID H header_B"
    by (simp add: header_A_def header_B_def Abs_bytes32_eq_iff)
qed

lemma unat_of_nat_u64: "n < 2 ^ 64 \<Longrightarrow> unat (of_nat n :: u64) = n"
  by (simp add: unat_of_nat)

text \<open>
  Claim C4. The element IDs of a transaction have the transaction's ID as source and
  number the elements consecutively: siacoin output \<open>i\<close> has index \<open>i\<close>, the claim output
  of siafund input \<open>i\<close> has index \<open>nSC + i\<close>, siafund output \<open>i\<close> has index
  \<open>nSC + nSFI + i\<close> and file contract \<open>i\<close> has index \<open>nSC + nSFI + nSF + i\<close>
  (in u64 arithmetic, as the code converts the sum).
\<close>
theorem element_ID_indices:
  "SiacoinOutputID H txn i = \<lparr>Source = Transaction_ID H txn, Index = i\<rparr> \<and>
   SiafundClaimOutputID H txn i =
     \<lparr>Source = Transaction_ID H txn, Index = of_nat (length (SiacoinOutputs txn)) + i\<rparr> \<and>
   SiafundOutputID H txn i =
     \<lparr>Source = Transaction_ID H txn,
      Index = of_nat (length (SiacoinOutputs txn) + length (SiafundInputs txn)) + i\<rparr> \<and>
   FileContractID H txn i =
     \<lparr>Source = Transaction_ID H txn,
      Index = of_nat (length (SiacoinOutputs txn) + length (SiafundInputs txn) +
                length (SiafundOutputs txn)) + i\<rparr> \<and>
   (length (SiacoinOutputs txn) + length (SiafundInputs txn) + length (SiafundOutputs txn) + n
      < 2 ^ 64 \<longrightarrow>
    unat (Index (SiacoinOutputID H txn (of_nat n))) = n \<and>
    unat (Index (SiafundClaimOutputID H txn (of_nat n))) = length (SiacoinOutputs txn) + n \<and>
    unat (Index (SiafundOutputID H txn (of_nat n))) =
      length (SiacoinOutputs txn) + length (SiafundInputs txn) + n \<and>
    unat (Index (FileContractID H txn (of_nat n))) =
      length (SiacoinOutputs txn) + length (SiafundInputs txn) + length (SiafundOutputs txn) + n)"
proof -
  have nat_part: "unat (Index (SiacoinOutputID H txn (of_nat n))) = n \<and>
    unat (Index (SiafundClaimOutputID H txn (of_nat n))) = length (SiacoinOutputs txn) + n \<and>
    unat (Index (SiafundOutputID H txn (of_nat n))) =
      length (SiacoinOutputs txn) + length (SiafundInputs txn) + n \<and>
    unat (Index (FileContractID H txn (of_nat n))) =
      length (SiacoinOutputs txn) + length (SiafundInputs txn) + length (SiafundOutputs txn) + n"
    if lt: "length (SiacoinOutputs txn) + length (SiafundInputs txn) +
      length (SiafundOutputs txn) + n < 2 ^ 64"
  proof -
    have "n < 2 ^ 64" and "length (SiacoinOutputs txn) + n < 2 ^ 64"
      and "length (SiacoinOutputs txn) + length (SiafundInputs txn) + n < 2 ^ 64"
      using lt by simp_all
    then show ?thesis
      using lt
      by (simp add: SiacoinOutputID_def SiafundClaimOutputID_def SiafundOutputID_def
          FileContractID_def unat_of_nat_u64 flip: of_nat_add)
  qed
  show ?thesis
    using nat_part
    by (simp add: SiacoinOutputID_def SiafundClaimOutputID_def SiafundOutputID_def
        FileContractID_def)
qed

theorem element_ID_indices_witness:
  "\<forall>H. length (SiacoinOutputs txn_two_outputs) + length (SiafundInputs txn_two_outputs) +
      length (SiafundOutputs txn_two_outputs) + 1 < (2::nat) ^ 64 \<and>
     Index (FileContractID H txn_two_outputs 1) = 3 \<and>
     unat (Index (FileContractID H txn_two_outputs (of_nat 1))) = 3"
proof
  fix H
  have lt: "length (SiacoinOutputs txn_two_outputs) + length (SiafundInputs txn_two_outputs) +
      length (SiafundOutputs txn_two_outputs) + 1 < (2::nat) ^ 64"
    by (simp add: txn_two_outputs_def empty_txn_def)
  show "length (SiacoinOutputs txn_two_outputs) + length (SiafundInputs txn_two_outputs) +
      length (SiafundOutputs txn_two_outputs) + 1 < (2::nat) ^ 64 \<and>
     Index (FileContractID H txn_two_outputs 1) = 3 \<and>
     unat (Index (FileContractID H txn_two_outputs (of_nat 1))) = 3"
    using lt element_ID_indices [of H txn_two_outputs 1 1]
    by (simp add: txn_two_outputs_def empty_txn_def)
qed

text \<open>
  Claim C2. \<^verbatim>\<open>EphemeralSiacoinElement(i)\<close> should return the \<open>i\<close>-th siacoin output with the
  ID \<^verbatim>\<open>SiacoinOutputID(i)\<close>. On a transaction with two outputs and \<open>i = 1\<close> the code
  returns the output at index 0 under the element index 0, while the output at index 1
  and its ID are different.
\<close>

theorem EphemeralSiacoinElement_at_index_1:
  "EphemeralSiacoinElement H txn_two_outputs 1 =
     Inr \<lparr>sce_StateElement =
            \<lparr>se_ID = \<lparr>Source = Transaction_ID H txn_two_outputs, Index = 0\<rparr>,
             LeafIndex = EphemeralLeafIndex, MerkleProof = []\<rparr>,
          sce_SiacoinOutput = \<lparr>sco_Value = 1, sco_Address = Abs_bytes32 (replicate 32 1)\<rparr>,
          MaturityHeight = 0\<rparr> \<and>
   SiacoinOutputID H txn_two_outputs 1 =
     \<lparr>Source = Transaction_ID H txn_two_outputs, Index = 1\<rparr> \<and>
   SiacoinOutputs txn_two_outputs ! 1 =
     \<lparr>sco_Value = 2, sco_Address = Abs_bytes32 (replicate 32 2)\<rparr>"
  by (simp add: EphemeralSiacoinElement_def txn_two_outputs_def empty_txn_def SiacoinOutputID_def)

lemma EphemeralSiacoinElement_ignores_index:
  "EphemeralSiacoinElement H txn i = EphemeralSiacoinElement H txn 0"
  by (simp add: EphemeralSiacoinElement_def)

lemma Transaction_ID_preimage_strip:
  "Transaction_ID_preimage (strip_Transaction txn) = Transaction_ID_preimage txn"
  by (simp add: Transaction_ID_preimage_def strip_Transaction_def comp_def
      strip_SiacoinInput_def strip_SiafundInput_def strip_Revision_def strip_Resolution_def
      strip_StateElement_def)

theorem Transaction_ID_ignores_signatures_and_proofs:
  assumes "strip_Transaction t1 = strip_Transaction t2"
  shows "Transaction_ID H t1 = Transaction_ID H t2"
proof -
  have "Transaction_ID_preimage t1 = Transaction_ID_preimage (strip_Transaction t1)"
    by (simp only: Transaction_ID_preimage_strip)
  also have "\<dots> = Transaction_ID_preimage (strip_Transaction t2)"
    by (simp only: assms)
  also have "\<dots> = Transaction_ID_preimage t2"
    by (simp only: Transaction_ID_preimage_strip)
  finally show ?thesis
    by (simp add: Transaction_ID_def)
qed

theorem Transaction_ID_ignores_signatures_and_proofs_witness:
  "\<forall>H. txn_with elem_fresh [zero64] \<noteq> txn_with elem_stale [] \<and>
       strip_Transaction (txn_with elem_fresh [zero64]) = strip_Transaction (txn_with elem_stale []) \<and>
       Transaction_ID H (txn_with elem_fresh [zero64]) = Transaction_ID H (txn_with elem_stale [])"
proof
  fix H
  have s: "strip_Transaction (txn_with elem_fresh [zero64]) = strip_Transaction (txn_with elem_stale [])"
    by (simp add: strip_Transaction_def txn_with_def empty_txn_def elem_fresh_def elem_stale_def
        strip_SiacoinInput_def strip_SiafundInput_def strip_Revision_def strip_Resolution_def
        strip_StateElement_def)
  have d: "txn_with elem_fresh [zero64] \<noteq> txn_with elem_stale []"
    by (simp add: txn_with_def empty_txn_def)
  show "txn_with elem_fresh [zero64] \<noteq> txn_with elem_stale [] \<and>
       strip_Transaction (txn_with elem_fresh [zero64]) = strip_Transaction (txn_with elem_stale []) \<and>
       Transaction_ID H (txn_with elem_fresh [zero64]) = Transaction_ID H (txn_with elem_stale [])"
    using d s Transaction_ID_ignores_signatures_and_proofs [OF s, of H] by simp
qed

lemma le_bytes_8_0: "le_bytes 8 (0::u64) = replicate 8 0"
  by code_simp

lemma le_bytes_8_112: "le_bytes 8 (112::u64) = 112 # replicate 7 0"
  by code_simp

lemma Transaction_ID_preimage_attestations_only:
  "Transaction_ID_preimage (empty_txn\<lparr>Attestations := atts\<rparr>) =
     WriteString ''sia/id/transaction'' @ concat (replicate 7 (WritePrefix 0)) @
     concat (map enc_Attestation atts) @
     WriteBytes [] @ enc_Hash256 zero32 @ enc_Currency 0"
  by (simp add: Transaction_ID_preimage_def empty_txn_def numeral_eq_Suc)

text \<open>
  Claim C3. Every sequence of a transaction should enter the ID preimage behind its
  element count. The attestations are written without one: in the preimage of a
  transaction that holds only attestations, their encodings follow the seven zero counts
  of the other sequences directly. So a transaction whose only content is one attestation
  and a transaction whose only content is 112 zero bytes of arbitrary data have the same
  preimage, hence the same ID under every hash function.
\<close>

theorem Transaction_ID_attestations_collision:
  "Transaction_ID_preimage (empty_txn\<lparr>Attestations := atts\<rparr>) =
     WriteString ''sia/id/transaction'' @ concat (replicate 7 (WritePrefix 0)) @
     concat (map enc_Attestation atts) @
     WriteBytes [] @ enc_Hash256 zero32 @ enc_Currency 0 \<and>
   Transaction_ID_preimage txn_one_attestation = Transaction_ID_preimage txn_arbitrary_112 \<and>
   Transaction_ID H txn_one_attestation = Transaction_ID H txn_arbitrary_112 \<and>
   txn_one_attestation \<noteq> txn_arbitrary_112"
proof -
  have r32: "Rep_bytes32 (Abs_bytes32 (112 # replicate 31 0)) = 112 # replicate 31 0"
    by (simp add: Abs_bytes32_inverse)
  have r64: "Rep_bytes64 zero64 = replicate 64 0"
    by (simp add: zero64_def Abs_bytes64_inverse)
  have a: "enc_Attestation \<lparr>att_PublicKey = Abs_bytes32 (112 # replicate 31 0), att_Key = [],
      att_Value = [], att_Signature = zero64\<rparr> @ WriteBytes [] = 112 # replicate 119 0"
    by (simp add: enc_Attestation_def WriteString_def WriteBytes_def WritePrefix_def
        WriteUint64_def bytes_of_string_def enc_Hash256_def enc_Signature_def r32 r64
        le_bytes_8_0 replicate_add [symmetric])
  have b: "WriteBytes (replicate 112 0) = 112 # replicate 119 0"
    by (simp add: WriteBytes_def WritePrefix_def WriteUint64_def le_bytes_8_112
        replicate_add [symmetric])
  have p: "Transaction_ID_preimage txn_one_attestation = Transaction_ID_preimage txn_arbitrary_112"
    using a b
    by (simp add: Transaction_ID_preimage_def txn_one_attestation_def txn_arbitrary_112_def
        empty_txn_def)
  have d: "txn_one_attestation \<noteq> txn_arbitrary_112"
    by (simp add: txn_one_attestation_def txn_arbitrary_112_def empty_txn_def)
  from p d Transaction_ID_preimage_attestations_only [of atts] show ?thesis
    by (simp only: Transaction_ID_def) simp
qed

text \<open>
  Claim C6. The reward of the block at height \<open>h\<close> is \<open>max(300000 - h, 30000)\<close> whole
  siacoins, never less than 30000, with the four values the spec lists; \<^verbatim>\<open>BlockReward\<close>
  on a state whose index height is \<open>h - 1\<close> gives the reward at height \<open>h\<close>.
\<close>

theorem BlockReward_schedule:
  "BlockReward \<lparr>st_Index = \<lparr>ci_Height = h - 1, ci_ID = b\<rparr>\<rparr> = max (300000 - int (unat h)) 30000 \<and>
   reward_at n = max (300000 - int n) 30000 \<and>
   30000 \<le> reward_at n \<and>
   reward_at 1 = 299999 \<and> reward_at 100000 = 200000 \<and>
   reward_at 270000 = 30000 \<and> reward_at 1000000 = 30000"
  by (simp add: BlockReward_def reward_at_def)

text \<open>
  Claim C9. Evaluating \<open>Above(h)\<close> succeeds exactly when the state's height is strictly
  greater than \<open>h\<close>: it fails at height \<open>h\<close> itself, fails at height 100 for
  \<open>Above(150)\<close> and succeeds at height 151 for \<open>Above(150)\<close>.
\<close>

theorem PolicyAbove_succeeds_iff:
  "policy_succeeds V s sh (PolicyAbove h) sigs = (h < ci_Height (st_Index s)) \<and>
   \<not> policy_succeeds V \<lparr>st_Index = \<lparr>ci_Height = h, ci_ID = b\<rparr>\<rparr> sh (PolicyAbove h) sigs \<and>
   \<not> policy_succeeds V \<lparr>st_Index = \<lparr>ci_Height = 100, ci_ID = b\<rparr>\<rparr> sh (PolicyAbove 150) sigs \<and>
   policy_succeeds V \<lparr>st_Index = \<lparr>ci_Height = 151, ci_ID = b\<rparr>\<rparr> sh (PolicyAbove 150) sigs"
  by (simp add: policy_succeeds_def)

section \<open>Work arithmetic: the value of the results\<close>

lemma be_nat_foldl:
  "foldl (\<lambda>acc x. acc * 256 + unat x) a bs = a * 256 ^ length bs + be_nat bs"
proof (induction bs arbitrary: a)
  case Nil
  show ?case by (simp add: be_nat_def)
next
  case (Cons b bs)
  have "foldl (\<lambda>acc x. acc * 256 + unat x) a (b # bs) =
      (a * 256 + unat b) * 256 ^ length bs + be_nat bs"
    using Cons [of "a * 256 + unat b"] by simp
  moreover have "be_nat (b # bs) = unat b * 256 ^ length bs + be_nat bs"
    using Cons [of "unat b"] by (simp add: be_nat_def)
  ultimately show ?case by (simp add: algebra_simps)
qed

lemma be_nat_Nil [simp]: "be_nat [] = 0"
  by (simp add: be_nat_def)

lemma be_nat_append: "be_nat (xs @ ys) = be_nat xs * 256 ^ length ys + be_nat ys"
  by (simp add: be_nat_def be_nat_foldl [of "foldl _ _ _"])

lemma be_nat_snoc: "be_nat (xs @ [x]) = be_nat xs * 256 + unat x"
  by (simp add: be_nat_def)

lemma be_nat_less: "be_nat bs < 256 ^ length bs"
proof (induction bs rule: rev_induct)
  case Nil
  show ?case by simp
next
  case (snoc x xs)
  have "unat x < 256" using unsigned_less [of x] by simp
  with snoc have "be_nat xs * 256 + unat x < 256 ^ length xs * 256"
    by simp
  then show ?case by (simp add: be_nat_snoc)
qed

lemma be_nat_rev: "be_nat (rev xs) = le_nat xs"
  by (induction xs) (simp_all add: be_nat_snoc le_nat_def)

lemma be_nat_be_bytes_u64: "be_nat (be_bytes 8 (v::u64)) = unat v"
  by (simp add: be_bytes_def be_nat_rev le_nat_le_bytes_u64)

lemma length_be_bytes [simp]: "length (be_bytes n w) = n"
  by (simp add: be_bytes_def)

lemma unat_foldl_be:
  "length xs \<le> 8 \<Longrightarrow> unat (foldl (\<lambda>acc x. acc * 256 + ucast x) (0::u64) xs) = be_nat xs"
proof (induction xs rule: rev_induct)
  case Nil
  show ?case by simp
next
  case (snoc x xs)
  let ?W = "foldl (\<lambda>acc x. acc * 256 + ucast x) (0::u64) xs"
  have ih: "unat ?W = be_nat xs" using snoc by simp
  have "be_nat (xs @ [x]) < 256 ^ length (xs @ [x])" by (rule be_nat_less)
  also have "\<dots> \<le> (256::nat) ^ 8" using snoc.prems by (intro power_increasing) simp_all
  finally have lt: "be_nat xs * 256 + unat x < 2 ^ 64" by (simp add: be_nat_snoc)
  have "unat x < 256" using unsigned_less [of x] by simp
  then have ux: "unat (ucast x :: u64) = unat x"
    by (simp add: unsigned_ucast_eq take_bit_nat_eq_self_iff)
  have "unat (?W * 256 + ucast x) = (unat ?W * 256 + unat x) mod 2 ^ 64"
    by (simp add: unat_word_ariths ux mod_simps)
  then show ?case using lt by (simp add: ih be_nat_snoc)
qed

lemma unat_BigEndian_Uint64: "unat (BigEndian_Uint64 b) = be_nat (take 8 b)"
  by (simp add: BigEndian_Uint64_def unat_foldl_be)

lemma be_nat_limbs:
  assumes "length w = 32"
  shows "be_nat w =
    unat (BigEndian_Uint64 w) * 2 ^ 192 + unat (BigEndian_Uint64 (drop 8 w)) * 2 ^ 128 +
    unat (BigEndian_Uint64 (drop 16 w)) * 2 ^ 64 + unat (BigEndian_Uint64 (drop 24 w))"
proof -
  have a: "drop 16 w = take 8 (drop 16 w) @ drop 24 w"
    using append_take_drop_id [of 8 "drop 16 w"] by simp
  have b: "drop 8 w = take 8 (drop 8 w) @ drop 16 w"
    using append_take_drop_id [of 8 "drop 8 w"] by simp
  have c: "w = take 8 w @ drop 8 w"
    by simp
  have d: "take 8 (drop 24 w) = drop 24 w"
    using assms by simp
  have "w = take 8 w @ take 8 (drop 8 w) @ take 8 (drop 16 w) @ take 8 (drop 24 w)"
    unfolding d using a b c by metis
  then have "be_nat w = be_nat (take 8 w @ take 8 (drop 8 w) @ take 8 (drop 16 w) @ take 8 (drop 24 w))"
    by simp
  also have "\<dots> = be_nat (take 8 w) * 2 ^ 192 + be_nat (take 8 (drop 8 w)) * 2 ^ 128 +
      be_nat (take 8 (drop 16 w)) * 2 ^ 64 + be_nat (take 8 (drop 24 w))"
    using assms by (simp add: be_nat_append algebra_simps)
  finally show ?thesis by (simp add: unat_BigEndian_Uint64)
qed

lemma be_nat_be_limbs:
  "be_nat (be_bytes 8 (a::u64) @ be_bytes 8 (b::u64) @ be_bytes 8 (c::u64) @ be_bytes 8 (d::u64)) =
     unat a * 2 ^ 192 + unat b * 2 ^ 128 + unat c * 2 ^ 64 + unat d"
  by (simp add: be_nat_append be_nat_be_bytes_u64 algebra_simps)

lemma put4_down:
  "BigEndian_PutUint64 0 a (BigEndian_PutUint64 8 b (BigEndian_PutUint64 16 c
     (BigEndian_PutUint64 24 d (replicate 32 0)))) =
   be_bytes 8 a @ be_bytes 8 b @ be_bytes 8 c @ be_bytes 8 d"
proof -
  have z: "replicate 32 (0::byte) = replicate 24 0 @ replicate 8 0 @ []"
    by (simp add: replicate_add [symmetric])
  have s1: "BigEndian_PutUint64 24 d (replicate 32 0) = replicate 24 0 @ be_bytes 8 d"
    unfolding z BigEndian_PutUint64_def by (subst copy_at_append) simp_all
  have z2: "replicate 24 (0::byte) @ be_bytes 8 d = replicate 16 0 @ replicate 8 0 @ be_bytes 8 d"
    by (simp add: replicate_add [symmetric])
  have s2: "BigEndian_PutUint64 16 c (replicate 24 0 @ be_bytes 8 d) =
      replicate 16 0 @ be_bytes 8 c @ be_bytes 8 d"
    unfolding z2 BigEndian_PutUint64_def by (subst copy_at_append) simp_all
  have z3: "replicate 16 (0::byte) @ be_bytes 8 c @ be_bytes 8 d =
      replicate 8 0 @ replicate 8 0 @ be_bytes 8 c @ be_bytes 8 d"
    by (simp add: replicate_add [symmetric])
  have s3: "BigEndian_PutUint64 8 b (replicate 16 0 @ be_bytes 8 c @ be_bytes 8 d) =
      replicate 8 0 @ be_bytes 8 b @ be_bytes 8 c @ be_bytes 8 d"
    unfolding z3 BigEndian_PutUint64_def by (subst copy_at_append) simp_all
  have s4: "BigEndian_PutUint64 0 a (replicate 8 0 @ be_bytes 8 b @ be_bytes 8 c @ be_bytes 8 d) =
      be_bytes 8 a @ be_bytes 8 b @ be_bytes 8 c @ be_bytes 8 d"
    using copy_at_append [of "[]" 0 "replicate 8 0" "be_bytes 8 a" "be_bytes 8 b @ be_bytes 8 c @ be_bytes 8 d"]
    by (simp add: BigEndian_PutUint64_def)
  show ?thesis by (simp only: s1 s2 s3 s4)
qed

lemma put4_up:
  "BigEndian_PutUint64 24 d (BigEndian_PutUint64 16 c (BigEndian_PutUint64 8 b
     (BigEndian_PutUint64 0 a (replicate 32 0)))) =
   be_bytes 8 a @ be_bytes 8 b @ be_bytes 8 c @ be_bytes 8 d"
proof -
  have z: "replicate 32 (0::byte) = [] @ replicate 8 0 @ replicate 24 0"
    by (simp add: replicate_add [symmetric])
  have s1: "BigEndian_PutUint64 0 a (replicate 32 0) = be_bytes 8 a @ replicate 24 0"
    unfolding z BigEndian_PutUint64_def by (subst copy_at_append) simp_all
  have z2: "be_bytes 8 a @ replicate 24 (0::byte) = be_bytes 8 a @ replicate 8 0 @ replicate 16 0"
    by (simp add: replicate_add [symmetric])
  have s2: "BigEndian_PutUint64 8 b (be_bytes 8 a @ replicate 24 0) =
      be_bytes 8 a @ be_bytes 8 b @ replicate 16 0"
    unfolding z2 BigEndian_PutUint64_def by (subst copy_at_append) simp_all
  have z3: "be_bytes 8 a @ be_bytes 8 b @ replicate 16 (0::byte) =
      (be_bytes 8 a @ be_bytes 8 b) @ replicate 8 0 @ replicate 8 0"
    by (simp add: replicate_add [symmetric])
  have s3: "BigEndian_PutUint64 16 c (be_bytes 8 a @ be_bytes 8 b @ replicate 16 0) =
      be_bytes 8 a @ be_bytes 8 b @ be_bytes 8 c @ replicate 8 0"
    unfolding z3 BigEndian_PutUint64_def by (subst copy_at_append) simp_all
  have s4: "BigEndian_PutUint64 24 d (be_bytes 8 a @ be_bytes 8 b @ be_bytes 8 c @ replicate 8 0) =
      be_bytes 8 a @ be_bytes 8 b @ be_bytes 8 c @ be_bytes 8 d"
    using copy_at_append [of "be_bytes 8 a @ be_bytes 8 b @ be_bytes 8 c" 24 "replicate 8 0" "be_bytes 8 d" "[]"]
    by (simp add: BigEndian_PutUint64_def)
  show ?thesis by (simp only: s1 s2 s3 s4)
qed

lemma Work_Add_loop_unroll:
  "Work_Add_loop w v 24 (r, c) =
     (let (s3, c3) = Add64 (BigEndian_Uint64 (drop 24 w)) (BigEndian_Uint64 (drop 24 v)) c;
          (s2, c2) = Add64 (BigEndian_Uint64 (drop 16 w)) (BigEndian_Uint64 (drop 16 v)) c3;
          (s1, c1) = Add64 (BigEndian_Uint64 (drop 8 w)) (BigEndian_Uint64 (drop 8 v)) c2;
          (s0, c0) = Add64 (BigEndian_Uint64 w) (BigEndian_Uint64 v) c1
      in (BigEndian_PutUint64 0 s0 (BigEndian_PutUint64 8 s1 (BigEndian_PutUint64 16 s2
            (BigEndian_PutUint64 24 s3 r))), c0))"
  by (simp add: Work_Add_loop.simps [of w v 24] Work_Add_loop.simps [of w v 16]
      Work_Add_loop.simps [of w v 8] Work_Add_loop.simps [of w v 0]
      Work_Add_loop.simps [of w v "- 8"] Let_def split_def del: Work_Add_loop.simps)

lemma Add64_unat:
  assumes "unat c \<le> 1" and "Add64 x y c = (s, c')"
  shows "unat s + 2 ^ 64 * unat c' = unat x + unat y + unat c \<and> unat c' \<le> 1"
proof -
  have bx: "unat x < 2 ^ 64" and "unat y < 2 ^ 64"
    using unsigned_less [of x] unsigned_less [of y] by simp_all
  have s: "unat s = (unat x + unat y + unat c) mod 2 ^ 64"
    using assms(2) by (auto simp: Add64_def unat_word_ariths mod_simps)
  show ?thesis
  proof (cases "2 ^ 64 \<le> unat x + unat y + unat c")
    case True
    then have "c' = 1" using assms(2) by (auto simp: Add64_def)
    moreover have "unat x + unat y + unat c < 2 * 2 ^ 64"
      using bx \<open>unat y < 2 ^ 64\<close> assms(1) by linarith
    then have "(unat x + unat y + unat c) mod 2 ^ 64 = unat x + unat y + unat c - 2 ^ 64"
      using True by (simp add: mod_if)
    ultimately show ?thesis using True s by simp
  next
    case False
    then have "c' = 0" using assms(2) by (auto simp: Add64_def)
    then show ?thesis using False s by simp
  qed
qed

lemma Sub64_unat:
  assumes "unat b \<le> 1" and "Sub64 x y b = (d, b')"
  shows "unat d + unat y + unat b = unat x + 2 ^ 64 * unat b' \<and> unat b' \<le> 1"
proof -
  have bx: "uint x < 2 ^ 64" and bnd_y: "uint y < 2 ^ 64"
    using unsigned_less [of x] unsigned_less [of y] by simp_all
  have pos: "0 \<le> uint x" "0 \<le> uint y" "0 \<le> uint b"
    by simp_all
  have b1: "uint b \<le> 1"
    using assms(1) unfolding uint_nat by linarith
  have d: "d = x - y - b" using assms(2) by (simp add: Sub64_def)
  have di: "uint d = (uint x - uint y - uint b) mod 2 ^ 64"
    unfolding d by (simp add: uint_word_ariths mod_simps)
  have lt_iff: "unat x < unat y + unat b \<longleftrightarrow> uint x < uint y + uint b"
    unfolding uint_nat by linarith
  have goal_int: "uint d + uint y + uint b = uint x + 2 ^ 64 * uint b' \<and> uint b' \<le> 1"
  proof (cases "unat x < unat y + unat b")
    case True
    then have b': "b' = 1" using assms(2) by (auto simp: Sub64_def)
    have "0 \<le> uint x - uint y - uint b + 2 ^ 64"
      using bnd_y b1 pos by linarith
    moreover have "uint x - uint y - uint b + 2 ^ 64 < 2 ^ 64"
      using True lt_iff by linarith
    ultimately have "(uint x - uint y - uint b + 2 ^ 64) mod 2 ^ 64 =
        uint x - uint y - uint b + 2 ^ 64"
      by (rule mod_pos_pos_trivial)
    then have "uint d = uint x - uint y - uint b + 2 ^ 64"
      using di by simp
    then show ?thesis using b' by simp
  next
    case False
    then have b': "b' = 0" using assms(2) by (auto simp: Sub64_def)
    have "0 \<le> uint x - uint y - uint b"
      using False lt_iff by linarith
    moreover have "uint x - uint y - uint b < 2 ^ 64"
      using bx pos by linarith
    ultimately have "(uint x - uint y - uint b) mod 2 ^ 64 = uint x - uint y - uint b"
      by (rule mod_pos_pos_trivial)
    then have "uint d = uint x - uint y - uint b"
      using di by simp
    then show ?thesis using b' by simp
  qed
  have "int (unat d + unat y + unat b) = int (unat x + 2 ^ 64 * unat b')"
    using goal_int by simp
  then have "unat d + unat y + unat b = unat x + 2 ^ 64 * unat b'"
    by (simp only: of_nat_eq_iff)
  moreover have "int (unat b') \<le> 1"
    using goal_int by simp
  then have "unat b' \<le> 1"
    by linarith
  ultimately show ?thesis by simp
qed

lemma limbs_less:
  fixes s0 s1 s2 s3 :: nat
  assumes "s0 < 2 ^ 64" "s1 < 2 ^ 64" "s2 < 2 ^ 64" "s3 < 2 ^ 64"
  shows "s0 * 2 ^ 192 + s1 * 2 ^ 128 + s2 * 2 ^ 64 + s3 < 2 ^ 256"
  using assms by simp

lemma add_chain:
  fixes s0 s1 s2 s3 c0 c1 c2 c3 w0 w1 w2 w3 v0 v1 v2 v3 :: nat
  assumes "s3 + 2 ^ 64 * c3 = w3 + v3"
    and "s2 + 2 ^ 64 * c2 = w2 + v2 + c3"
    and "s1 + 2 ^ 64 * c1 = w1 + v1 + c2"
    and "s0 + 2 ^ 64 * c0 = w0 + v0 + c1"
    and "s0 < 2 ^ 64" "s1 < 2 ^ 64" "s2 < 2 ^ 64" "s3 < 2 ^ 64"
  shows "(w0 * 2 ^ 192 + w1 * 2 ^ 128 + w2 * 2 ^ 64 + w3 +
          (v0 * 2 ^ 192 + v1 * 2 ^ 128 + v2 * 2 ^ 64 + v3)) mod 2 ^ 256 =
         s0 * 2 ^ 192 + s1 * 2 ^ 128 + s2 * 2 ^ 64 + s3"
proof -
  let ?S = "s0 * 2 ^ 192 + s1 * 2 ^ 128 + s2 * 2 ^ 64 + s3"
  have "w0 * 2 ^ 192 + w1 * 2 ^ 128 + w2 * 2 ^ 64 + w3 +
        (v0 * 2 ^ 192 + v1 * 2 ^ 128 + v2 * 2 ^ 64 + v3) = ?S + c0 * 2 ^ 256"
    using assms(1-4) by simp
  moreover have "?S < 2 ^ 256"
    using assms(5-8) by (rule limbs_less)
  ultimately show ?thesis by simp
qed

lemma sub_chain:
  fixes d0 d1 d2 d3 b0 b1 b2 b3 w0 w1 w2 w3 v0 v1 v2 v3 :: nat
  assumes "d3 + v3 = w3 + 2 ^ 64 * b3"
    and "d2 + v2 + b3 = w2 + 2 ^ 64 * b2"
    and "d1 + v1 + b2 = w1 + 2 ^ 64 * b1"
    and "d0 + v0 + b1 = w0 + 2 ^ 64 * b0"
    and "d0 < 2 ^ 64" "d1 < 2 ^ 64" "d2 < 2 ^ 64" "d3 < 2 ^ 64"
  shows "(int (w0 * 2 ^ 192 + w1 * 2 ^ 128 + w2 * 2 ^ 64 + w3) -
          int (v0 * 2 ^ 192 + v1 * 2 ^ 128 + v2 * 2 ^ 64 + v3)) mod 2 ^ 256 =
         int (d0 * 2 ^ 192 + d1 * 2 ^ 128 + d2 * 2 ^ 64 + d3)"
proof -
  let ?D = "d0 * 2 ^ 192 + d1 * 2 ^ 128 + d2 * 2 ^ 64 + d3"
  let ?W = "w0 * 2 ^ 192 + w1 * 2 ^ 128 + w2 * 2 ^ 64 + w3"
  let ?V = "v0 * 2 ^ 192 + v1 * 2 ^ 128 + v2 * 2 ^ 64 + v3"
  have "?D + ?V = ?W + b0 * 2 ^ 256"
    using assms(1-4) by simp
  then have "int ?D + int ?V = int ?W + int b0 * 2 ^ 256"
    by (metis (no_types, lifting) of_nat_add of_nat_mult of_nat_numeral of_nat_power)
  then have e: "int ?W - int ?V = int ?D + (- int b0) * 2 ^ 256"
    by simp
  have "?D < 2 ^ 256"
    using assms(5-8) by (rule limbs_less)
  then have "int ?D < 2 ^ 256"
    by (metis of_nat_less_iff of_nat_numeral of_nat_power)
  then have "(int ?D + (- int b0) * 2 ^ 256) mod 2 ^ 256 = int ?D"
    by (simp only: mod_mult_self1) simp
  then show ?thesis
    by (simp only: e)
qed

lemma mul_chain:
  fixes p0 p1 p2 p3 c0 c1 c2 c3 w0 w1 w2 w3 x :: nat
  assumes "p3 + 2 ^ 64 * c3 = w3 * x"
    and "p2 + 2 ^ 64 * c2 = w2 * x + c3"
    and "p1 + 2 ^ 64 * c1 = w1 * x + c2"
    and "p0 + 2 ^ 64 * c0 = w0 * x + c1"
    and "p0 < 2 ^ 64" "p1 < 2 ^ 64" "p2 < 2 ^ 64" "p3 < 2 ^ 64"
  shows "((w0 * 2 ^ 192 + w1 * 2 ^ 128 + w2 * 2 ^ 64 + w3) * x) mod 2 ^ 256 =
         p0 * 2 ^ 192 + p1 * 2 ^ 128 + p2 * 2 ^ 64 + p3"
proof -
  let ?P = "p0 * 2 ^ 192 + p1 * 2 ^ 128 + p2 * 2 ^ 64 + p3"
  have "(w0 * 2 ^ 192 + w1 * 2 ^ 128 + w2 * 2 ^ 64 + w3) * x =
      (w0 * x) * 2 ^ 192 + (w1 * x) * 2 ^ 128 + (w2 * x) * 2 ^ 64 + w3 * x"
    by (simp add: algebra_simps)
  also have "\<dots> = ?P + c0 * 2 ^ 256"
    using assms(1-4) by simp
  finally have "(w0 * 2 ^ 192 + w1 * 2 ^ 128 + w2 * 2 ^ 64 + w3) * x = ?P + c0 * 2 ^ 256" .
  moreover have "?P < 2 ^ 256"
    using assms(5-8) by (rule limbs_less)
  ultimately show ?thesis by simp
qed

lemma div_chain:
  fixes q0 q1 q2 q3 r1 r2 r3 r4 w0 w1 w2 w3 x :: nat
  assumes "w0 = q0 * x + r1"
    and "r1 * 2 ^ 64 + w1 = q1 * x + r2"
    and "r2 * 2 ^ 64 + w2 = q2 * x + r3"
    and "r3 * 2 ^ 64 + w3 = q3 * x + r4"
    and "r4 < x"
  shows "(w0 * 2 ^ 192 + w1 * 2 ^ 128 + w2 * 2 ^ 64 + w3) div x =
         q0 * 2 ^ 192 + q1 * 2 ^ 128 + q2 * 2 ^ 64 + q3"
proof -
  let ?Q = "q0 * 2 ^ 192 + q1 * 2 ^ 128 + q2 * 2 ^ 64 + q3"
  have a: "(q0 * x) * 2 ^ 192 + (q1 * x) * 2 ^ 128 + (q2 * x) * 2 ^ 64 + q3 * x = ?Q * x"
    by (simp add: algebra_simps)
  have "w0 * 2 ^ 192 + w1 * 2 ^ 128 + w2 * 2 ^ 64 + w3 =
      (q0 * x) * 2 ^ 192 + (q1 * x) * 2 ^ 128 + (q2 * x) * 2 ^ 64 + q3 * x + r4"
    using assms(1-4) by simp
  then have "w0 * 2 ^ 192 + w1 * 2 ^ 128 + w2 * 2 ^ 64 + w3 = ?Q * x + r4"
    by (simp only: a)
  then show ?thesis
    using assms(5) by simp
qed

lemma Mul64_step_unat:
  assumes "Mul64 x y = (hi, lo)" and "Add64 lo c 0 = (p, cc)"
  shows "unat p + 2 ^ 64 * unat (hi + cc) = unat x * unat y + unat c"
proof -
  let ?N = "unat x * unat y"
  have "unat x < 2 ^ 64" and "unat y < 2 ^ 64" and "unat c < 2 ^ 64"
    using unsigned_less [of x] unsigned_less [of y] unsigned_less [of c] by simp_all
  then have bx: "unat x \<le> 2 ^ 64 - 1" and bnd_y: "unat y \<le> 2 ^ 64 - 1"
    and bc: "unat c \<le> 2 ^ 64 - 1"
    by simp_all
  have "?N \<le> (2 ^ 64 - 1) * (2 ^ 64 - 1)"
    using bx bnd_y by (rule mult_le_mono)
  then have N: "?N \<le> 340282366920938463426481119284349108225"
    by simp
  have lo: "unat lo = ?N mod 2 ^ 64"
    using assms(1) by (auto simp: Mul64_def unat_word_ariths)
  have "?N div 2 ^ 64 < 2 ^ 64"
    using N by simp
  then have hi: "unat hi = ?N div 2 ^ 64"
    using assms(1) by (auto simp: Mul64_def unat_of_nat)
  have a: "unat p + 2 ^ 64 * unat cc = unat lo + unat c"
    using Add64_unat [OF _ assms(2)] by simp
  have split: "?N = 2 ^ 64 * unat hi + unat lo"
    unfolding hi lo by simp
  have "2 ^ 64 * (unat hi + unat cc) \<le> ?N + unat c"
    using a split by simp
  then have "unat hi + unat cc < 2 ^ 64"
    using N bc by simp
  then have "unat (hi + cc) = unat hi + unat cc"
    by (simp add: unat_add_lem [THEN iffD1])
  then show ?thesis
    using a split by simp
qed

lemma Div64_step:
  assumes "y \<noteq> 0" and "unat r < unat y"
  shows "\<exists>q r'. Div64 r wi y = Inr (q, r') \<and>
           unat r * 2 ^ 64 + unat wi = unat q * unat y + unat r' \<and> unat r' < unat y"
proof -
  let ?N = "unat r * 2 ^ 64 + unat wi"
  let ?Y = "unat y"
  have Y: "?Y < 2 ^ 64" using unsigned_less [of y] by simp
  have wi: "unat wi < 2 ^ 64" using unsigned_less [of wi] by simp
  have "\<not> y \<le> r"
    using assms(2) by (simp add: word_le_nat_alt)
  then have D: "Div64 r wi y = Inr (of_nat (?N div ?Y), of_nat (?N mod ?Y))"
    using assms(1) by (simp add: Div64_def)
  have "Suc (unat r) * 2 ^ 64 \<le> ?Y * 2 ^ 64"
    using assms(2) by (intro mult_le_mono1) simp
  then have "?N < ?Y * 2 ^ 64"
    using wi by simp
  then have "?N div ?Y < 2 ^ 64"
    by (simp add: less_mult_imp_div_less mult.commute)
  then have q: "unat (of_nat (?N div ?Y) :: u64) = ?N div ?Y"
    by (simp add: unat_of_nat)
  have m: "?N mod ?Y < ?Y"
    using assms(2) by simp
  from m Y have "?N mod ?Y < 2 ^ 64"
    by (rule less_trans)
  then have r': "unat (of_nat (?N mod ?Y) :: u64) = ?N mod ?Y"
    by (simp add: unat_of_nat)
  have e: "?N = unat (of_nat (?N div ?Y) :: u64) * ?Y + unat (of_nat (?N mod ?Y) :: u64)"
    unfolding q r' by simp
  have l: "unat (of_nat (?N mod ?Y) :: u64) < ?Y"
    unfolding r' by (rule m)
  from D e l show ?thesis by blast
qed

lemma Work_Sub_loop_unroll:
  "Work_Sub_loop w v 24 (r, c) =
     (let (s3, c3) = Sub64 (BigEndian_Uint64 (drop 24 w)) (BigEndian_Uint64 (drop 24 v)) c;
          (s2, c2) = Sub64 (BigEndian_Uint64 (drop 16 w)) (BigEndian_Uint64 (drop 16 v)) c3;
          (s1, c1) = Sub64 (BigEndian_Uint64 (drop 8 w)) (BigEndian_Uint64 (drop 8 v)) c2;
          (s0, c0) = Sub64 (BigEndian_Uint64 w) (BigEndian_Uint64 v) c1
      in (BigEndian_PutUint64 0 s0 (BigEndian_PutUint64 8 s1 (BigEndian_PutUint64 16 s2
            (BigEndian_PutUint64 24 s3 r))), c0))"
  by (simp add: Work_Sub_loop.simps [of w v 24] Work_Sub_loop.simps [of w v 16]
      Work_Sub_loop.simps [of w v 8] Work_Sub_loop.simps [of w v 0]
      Work_Sub_loop.simps [of w v "- 8"] Let_def split_def del: Work_Sub_loop.simps)

lemma Work_Mul64_loop_unroll:
  "Work_Mul64_loop w v 24 (r, c) =
     (let (h3, l3) = Mul64 (BigEndian_Uint64 (drop 24 w)) v; (p3, cc3) = Add64 l3 c 0;
          (h2, l2) = Mul64 (BigEndian_Uint64 (drop 16 w)) v; (p2, cc2) = Add64 l2 (h3 + cc3) 0;
          (h1, l1) = Mul64 (BigEndian_Uint64 (drop 8 w)) v; (p1, cc1) = Add64 l1 (h2 + cc2) 0;
          (h0, l0) = Mul64 (BigEndian_Uint64 w) v; (p0, cc0) = Add64 l0 (h1 + cc1) 0
      in (BigEndian_PutUint64 0 p0 (BigEndian_PutUint64 8 p1 (BigEndian_PutUint64 16 p2
            (BigEndian_PutUint64 24 p3 r))), h0 + cc0))"
  by (simp add: Work_Mul64_loop.simps [of w v 24] Work_Mul64_loop.simps [of w v 16]
      Work_Mul64_loop.simps [of w v 8] Work_Mul64_loop.simps [of w v 0]
      Work_Mul64_loop.simps [of w v "- 8"] Let_def split_def del: Work_Mul64_loop.simps)

lemma Rep_Abs_limbs:
  "Rep_bytes32 (Abs_bytes32 (be_bytes 8 (a::u64) @ be_bytes 8 (b::u64) @ be_bytes 8 (c::u64) @
     be_bytes 8 (d::u64))) = be_bytes 8 a @ be_bytes 8 b @ be_bytes 8 c @ be_bytes 8 d"
  by (simp add: Abs_bytes32_inverse)

lemma work_nat_limbs:
  "work_nat w =
     unat (BigEndian_Uint64 (Rep_bytes32 (NumHashes w))) * 2 ^ 192 +
     unat (BigEndian_Uint64 (drop 8 (Rep_bytes32 (NumHashes w)))) * 2 ^ 128 +
     unat (BigEndian_Uint64 (drop 16 (Rep_bytes32 (NumHashes w)))) * 2 ^ 64 +
     unat (BigEndian_Uint64 (drop 24 (Rep_bytes32 (NumHashes w))))"
  unfolding work_nat_def by (rule be_nat_limbs) simp

lemma unat_u64_less: "unat (x::u64) < 2 ^ 64"
  using unsigned_less [of x] by simp

lemma work_nat_Add: "work_nat (Work_Add w v) = (work_nat w + work_nat v) mod 2 ^ 256"
proof -
  let ?W = "Rep_bytes32 (NumHashes w)" and ?V = "Rep_bytes32 (NumHashes v)"
  obtain s3 c3 where a3:
    "Add64 (BigEndian_Uint64 (drop 24 ?W)) (BigEndian_Uint64 (drop 24 ?V)) 0 = (s3, c3)"
    by (meson surj_pair)
  obtain s2 c2 where a2:
    "Add64 (BigEndian_Uint64 (drop 16 ?W)) (BigEndian_Uint64 (drop 16 ?V)) c3 = (s2, c2)"
    by (meson surj_pair)
  obtain s1 c1 where a1:
    "Add64 (BigEndian_Uint64 (drop 8 ?W)) (BigEndian_Uint64 (drop 8 ?V)) c2 = (s1, c1)"
    by (meson surj_pair)
  obtain s0 c0 where a0:
    "Add64 (BigEndian_Uint64 ?W) (BigEndian_Uint64 ?V) c1 = (s0, c0)"
    by (meson surj_pair)
  have loop: "Work_Add_loop ?W ?V 24 (replicate 32 0, 0) =
      (be_bytes 8 s0 @ be_bytes 8 s1 @ be_bytes 8 s2 @ be_bytes 8 s3, c0)"
    by (simp add: Work_Add_loop_unroll a3 a2 a1 a0 put4_down del: Work_Add_loop.simps)
  have res: "work_nat (Work_Add w v) =
      unat s0 * 2 ^ 192 + unat s1 * 2 ^ 128 + unat s2 * 2 ^ 64 + unat s3"
    by (simp add: work_nat_def Work_Add_def loop Rep_Abs_limbs be_nat_be_limbs
        del: Work_Add_loop.simps)
  have e3: "unat s3 + 2 ^ 64 * unat c3 =
      unat (BigEndian_Uint64 (drop 24 ?W)) + unat (BigEndian_Uint64 (drop 24 ?V))"
    and k3: "unat c3 \<le> 1"
    using Add64_unat [OF _ a3] by simp_all
  have e2: "unat s2 + 2 ^ 64 * unat c2 =
      unat (BigEndian_Uint64 (drop 16 ?W)) + unat (BigEndian_Uint64 (drop 16 ?V)) + unat c3"
    and k2: "unat c2 \<le> 1"
    using Add64_unat [OF k3 a2] by simp_all
  have e1: "unat s1 + 2 ^ 64 * unat c1 =
      unat (BigEndian_Uint64 (drop 8 ?W)) + unat (BigEndian_Uint64 (drop 8 ?V)) + unat c2"
    and k1: "unat c1 \<le> 1"
    using Add64_unat [OF k2 a1] by simp_all
  have e0: "unat s0 + 2 ^ 64 * unat c0 =
      unat (BigEndian_Uint64 ?W) + unat (BigEndian_Uint64 ?V) + unat c1"
    using Add64_unat [OF k1 a0] by simp
  show ?thesis
    unfolding res work_nat_limbs [of w] work_nat_limbs [of v]
    by (rule add_chain [OF e3 e2 e1 e0 unat_u64_less unat_u64_less unat_u64_less unat_u64_less,
          symmetric])
qed

lemma work_nat_Sub:
  "int (work_nat (Work_Sub w v)) = (int (work_nat w) - int (work_nat v)) mod 2 ^ 256"
proof -
  let ?W = "Rep_bytes32 (NumHashes w)" and ?V = "Rep_bytes32 (NumHashes v)"
  obtain s3 c3 where a3:
    "Sub64 (BigEndian_Uint64 (drop 24 ?W)) (BigEndian_Uint64 (drop 24 ?V)) 0 = (s3, c3)"
    by (meson surj_pair)
  obtain s2 c2 where a2:
    "Sub64 (BigEndian_Uint64 (drop 16 ?W)) (BigEndian_Uint64 (drop 16 ?V)) c3 = (s2, c2)"
    by (meson surj_pair)
  obtain s1 c1 where a1:
    "Sub64 (BigEndian_Uint64 (drop 8 ?W)) (BigEndian_Uint64 (drop 8 ?V)) c2 = (s1, c1)"
    by (meson surj_pair)
  obtain s0 c0 where a0:
    "Sub64 (BigEndian_Uint64 ?W) (BigEndian_Uint64 ?V) c1 = (s0, c0)"
    by (meson surj_pair)
  have loop: "Work_Sub_loop ?W ?V 24 (replicate 32 0, 0) =
      (be_bytes 8 s0 @ be_bytes 8 s1 @ be_bytes 8 s2 @ be_bytes 8 s3, c0)"
    by (simp add: Work_Sub_loop_unroll a3 a2 a1 a0 put4_down del: Work_Sub_loop.simps)
  have res: "work_nat (Work_Sub w v) =
      unat s0 * 2 ^ 192 + unat s1 * 2 ^ 128 + unat s2 * 2 ^ 64 + unat s3"
    by (simp add: work_nat_def Work_Sub_def loop Rep_Abs_limbs be_nat_be_limbs
        del: Work_Sub_loop.simps)
  have e3: "unat s3 + unat (BigEndian_Uint64 (drop 24 ?V)) =
      unat (BigEndian_Uint64 (drop 24 ?W)) + 2 ^ 64 * unat c3"
    and k3: "unat c3 \<le> 1"
    using Sub64_unat [OF _ a3] by simp_all
  have e2: "unat s2 + unat (BigEndian_Uint64 (drop 16 ?V)) + unat c3 =
      unat (BigEndian_Uint64 (drop 16 ?W)) + 2 ^ 64 * unat c2"
    and k2: "unat c2 \<le> 1"
    using Sub64_unat [OF k3 a2] by simp_all
  have e1: "unat s1 + unat (BigEndian_Uint64 (drop 8 ?V)) + unat c2 =
      unat (BigEndian_Uint64 (drop 8 ?W)) + 2 ^ 64 * unat c1"
    and k1: "unat c1 \<le> 1"
    using Sub64_unat [OF k2 a1] by simp_all
  have e0: "unat s0 + unat (BigEndian_Uint64 ?V) + unat c1 =
      unat (BigEndian_Uint64 ?W) + 2 ^ 64 * unat c0"
    using Sub64_unat [OF k1 a0] by simp
  show ?thesis
    unfolding res work_nat_limbs [of w] work_nat_limbs [of v]
    by (rule sub_chain [OF e3 e2 e1 e0 unat_u64_less unat_u64_less unat_u64_less unat_u64_less,
          symmetric])
qed

lemma work_nat_Mul64: "work_nat (Work_Mul64 w x) = (work_nat w * unat x) mod 2 ^ 256"
proof -
  let ?W = "Rep_bytes32 (NumHashes w)"
  obtain h3 l3 where m3: "Mul64 (BigEndian_Uint64 (drop 24 ?W)) x = (h3, l3)"
    by (meson surj_pair)
  obtain p3 cc3 where a3: "Add64 l3 0 0 = (p3, cc3)"
    by (meson surj_pair)
  obtain h2 l2 where m2: "Mul64 (BigEndian_Uint64 (drop 16 ?W)) x = (h2, l2)"
    by (meson surj_pair)
  obtain p2 cc2 where a2: "Add64 l2 (h3 + cc3) 0 = (p2, cc2)"
    by (meson surj_pair)
  obtain h1 l1 where m1: "Mul64 (BigEndian_Uint64 (drop 8 ?W)) x = (h1, l1)"
    by (meson surj_pair)
  obtain p1 cc1 where a1: "Add64 l1 (h2 + cc2) 0 = (p1, cc1)"
    by (meson surj_pair)
  obtain h0 l0 where m0: "Mul64 (BigEndian_Uint64 ?W) x = (h0, l0)"
    by (meson surj_pair)
  obtain p0 cc0 where a0: "Add64 l0 (h1 + cc1) 0 = (p0, cc0)"
    by (meson surj_pair)
  have loop: "Work_Mul64_loop ?W x 24 (replicate 32 0, 0) =
      (be_bytes 8 p0 @ be_bytes 8 p1 @ be_bytes 8 p2 @ be_bytes 8 p3, h0 + cc0)"
    by (simp add: Work_Mul64_loop_unroll m3 a3 m2 a2 m1 a1 m0 a0 put4_down
        del: Work_Mul64_loop.simps)
  have res: "work_nat (Work_Mul64 w x) =
      unat p0 * 2 ^ 192 + unat p1 * 2 ^ 128 + unat p2 * 2 ^ 64 + unat p3"
    by (simp add: work_nat_def Work_Mul64_def loop Rep_Abs_limbs be_nat_be_limbs
        del: Work_Mul64_loop.simps)
  have e3: "unat p3 + 2 ^ 64 * unat (h3 + cc3) = unat (BigEndian_Uint64 (drop 24 ?W)) * unat x"
    using Mul64_step_unat [OF m3 a3] by simp
  have e2: "unat p2 + 2 ^ 64 * unat (h2 + cc2) =
      unat (BigEndian_Uint64 (drop 16 ?W)) * unat x + unat (h3 + cc3)"
    using Mul64_step_unat [OF m2 a2] by simp
  have e1: "unat p1 + 2 ^ 64 * unat (h1 + cc1) =
      unat (BigEndian_Uint64 (drop 8 ?W)) * unat x + unat (h2 + cc2)"
    using Mul64_step_unat [OF m1 a1] by simp
  have e0: "unat p0 + 2 ^ 64 * unat (h0 + cc0) =
      unat (BigEndian_Uint64 ?W) * unat x + unat (h1 + cc1)"
    using Mul64_step_unat [OF m0 a0] by simp
  show ?thesis
    unfolding res work_nat_limbs [of w]
    by (rule mul_chain [OF e3 e2 e1 e0 unat_u64_less unat_u64_less unat_u64_less unat_u64_less,
          symmetric])
qed

lemma Work_Div64_loop_step:
  assumes "i < length w" and "Div64 rem (BigEndian_Uint64 (drop i w)) v = Inr (q, rem')"
  shows "Work_Div64_loop w v i (r, rem) =
    Work_Div64_loop w v (i + 8) (BigEndian_PutUint64 i q r, rem')"
  using assms by (simp add: Work_Div64_loop.simps [of w v i] del: Work_Div64_loop.simps)

lemma Work_Div64_loop_done:
  assumes "\<not> i < length w"
  shows "Work_Div64_loop w v i (r, rem) = Inr (r, rem)"
  using assms by (simp add: Work_Div64_loop.simps [of w v i] del: Work_Div64_loop.simps)

lemma Work_Div64_by_zero: "Work_Div64 w 0 = Inl DivideByZero"
  by (simp add: Work_Div64_def Work_Div64_loop.simps [of _ 0 0] Div64_def
      del: Work_Div64_loop.simps)

lemma work_nat_Div64:
  assumes "x \<noteq> 0"
  shows "\<exists>r. Work_Div64 w x = Inr r \<and> work_nat r = work_nat w div unat x"
proof -
  let ?W = "Rep_bytes32 (NumHashes w)"
  have x0: "unat (0::u64) < unat x"
    using assms by (simp add: unat_gt_0)
  obtain q0 r1 where d0: "Div64 0 (BigEndian_Uint64 (drop 0 ?W)) x = Inr (q0, r1)"
    and e0: "unat (0::u64) * 2 ^ 64 + unat (BigEndian_Uint64 (drop 0 ?W)) = unat q0 * unat x + unat r1"
    and l1: "unat r1 < unat x"
    using Div64_step [OF assms x0] by blast
  obtain q1 r2 where d1: "Div64 r1 (BigEndian_Uint64 (drop 8 ?W)) x = Inr (q1, r2)"
    and e1: "unat r1 * 2 ^ 64 + unat (BigEndian_Uint64 (drop 8 ?W)) = unat q1 * unat x + unat r2"
    and l2: "unat r2 < unat x"
    using Div64_step [OF assms l1] by blast
  obtain q2 r3 where d2: "Div64 r2 (BigEndian_Uint64 (drop 16 ?W)) x = Inr (q2, r3)"
    and e2: "unat r2 * 2 ^ 64 + unat (BigEndian_Uint64 (drop 16 ?W)) = unat q2 * unat x + unat r3"
    and l3: "unat r3 < unat x"
    using Div64_step [OF assms l2] by blast
  obtain q3 r4 where d3: "Div64 r3 (BigEndian_Uint64 (drop 24 ?W)) x = Inr (q3, r4)"
    and e3: "unat r3 * 2 ^ 64 + unat (BigEndian_Uint64 (drop 24 ?W)) = unat q3 * unat x + unat r4"
    and l4: "unat r4 < unat x"
    using Div64_step [OF assms l3] by blast
  have "Work_Div64_loop ?W x 0 (replicate 32 0, 0) =
      Work_Div64_loop ?W x 8 (BigEndian_PutUint64 0 q0 (replicate 32 0), r1)"
    using Work_Div64_loop_step [OF _ d0] by simp
  also have "\<dots> = Work_Div64_loop ?W x 16
      (BigEndian_PutUint64 8 q1 (BigEndian_PutUint64 0 q0 (replicate 32 0)), r2)"
    using Work_Div64_loop_step [OF _ d1] by simp
  also have "\<dots> = Work_Div64_loop ?W x 24
      (BigEndian_PutUint64 16 q2 (BigEndian_PutUint64 8 q1
        (BigEndian_PutUint64 0 q0 (replicate 32 0))), r3)"
    using Work_Div64_loop_step [OF _ d2] by simp
  also have "\<dots> = Work_Div64_loop ?W x 32
      (BigEndian_PutUint64 24 q3 (BigEndian_PutUint64 16 q2 (BigEndian_PutUint64 8 q1
        (BigEndian_PutUint64 0 q0 (replicate 32 0)))), r4)"
    using Work_Div64_loop_step [OF _ d3] by simp
  also have "\<dots> = Inr (be_bytes 8 q0 @ be_bytes 8 q1 @ be_bytes 8 q2 @ be_bytes 8 q3, r4)"
    by (simp add: Work_Div64_loop_done put4_up del: Work_Div64_loop.simps)
  finally have loop: "Work_Div64_loop ?W x 0 (replicate 32 0, 0) =
      Inr (be_bytes 8 q0 @ be_bytes 8 q1 @ be_bytes 8 q2 @ be_bytes 8 q3, r4)" .
  let ?R = "\<lparr>NumHashes = Abs_bytes32 (be_bytes 8 q0 @ be_bytes 8 q1 @ be_bytes 8 q2 @ be_bytes 8 q3)\<rparr>"
  have val: "Work_Div64 w x = Inr ?R"
    by (simp add: Work_Div64_def loop del: Work_Div64_loop.simps)
  have res: "work_nat ?R = unat q0 * 2 ^ 192 + unat q1 * 2 ^ 128 + unat q2 * 2 ^ 64 + unat q3"
    by (simp add: work_nat_def Rep_Abs_limbs be_nat_be_limbs)
  have e0': "unat (BigEndian_Uint64 ?W) = unat q0 * unat x + unat r1"
    using e0 by simp
  have "work_nat ?R = work_nat w div unat x"
    unfolding res work_nat_limbs [of w]
    by (rule div_chain [OF e0' e1 e2 e3 l4, symmetric])
  with val show ?thesis by blast
qed

text \<open>
  Claim C7. With \<^verbatim>\<open>NumHashes\<close> read as a 256-bit big-endian natural number, \<^verbatim>\<open>Add\<close>,
  \<^verbatim>\<open>Sub\<close> and \<^verbatim>\<open>Mul64\<close> compute sum, difference and product modulo \<open>2^256\<close>, and
  \<^verbatim>\<open>Div64\<close> computes the floor of the quotient for a divisor other than 0 (and panics
  with a division by zero for the divisor 0).
\<close>
theorem Work_arithmetic:
  "work_nat (Work_Add w v) = (work_nat w + work_nat v) mod 2 ^ 256 \<and>
   int (work_nat (Work_Sub w v)) = (int (work_nat w) - int (work_nat v)) mod 2 ^ 256 \<and>
   work_nat (Work_Mul64 w x) = (work_nat w * unat x) mod 2 ^ 256 \<and>
   map_sum id work_nat (Work_Div64 w x) =
     (if x = 0 then Inl DivideByZero else Inr (work_nat w div unat x))"
proof -
  have "map_sum id work_nat (Work_Div64 w x) =
     (if x = 0 then Inl DivideByZero else Inr (work_nat w div unat x))"
  proof (cases "x = 0")
    case True
    then show ?thesis by (simp add: Work_Div64_by_zero)
  next
    case False
    from work_nat_Div64 [OF False, of w] obtain r
      where "Work_Div64 w x = Inr r" and "work_nat r = work_nat w div unat x"
      by blast
    with False show ?thesis by simp
  qed
  with work_nat_Add [of w v] work_nat_Sub [of w v] work_nat_Mul64 [of w x]
  show ?thesis by blast
qed

section \<open>Address text encoding: decoding what was encoded\<close>

lemma reverseHexTable_digits:
  "list_all (\<lambda>n. reverseHexTable (hextable ! n) = of_nat n) [0..<16]"
  by code_simp

lemma reverseHexTable_hextable:
  assumes "n < 16"
  shows "reverseHexTable (hextable ! n) = of_nat n"
  using reverseHexTable_digits assms by (simp add: list_all_iff)

lemma byte_nibbles_hi: "unat (drop_bit 4 (b::byte)) < 16"
proof -
  have "unat b < 256" using unsigned_less [of b] by simp
  then show ?thesis
    unfolding unat_drop_bit_eq by (simp add: drop_bit_eq_div)
qed

lemma byte_nibbles_lo: "unat ((b::byte) AND 15) < 16"
proof -
  have "unat (b AND 15) \<le> unat (15 :: byte)"
    by (rule word_and_le1 [THEN word_le_nat_alt [THEN iffD1]])
  then show ?thesis by simp
qed

lemma byte_nibbles_join: "push_bit 4 (drop_bit 4 b) OR (b AND 15) = (b::byte)"
proof -
  have m: "b AND 15 = take_bit 4 b"
    by (simp add: take_bit_eq_mask mask_eq_exp_minus_1)
  show ?thesis
    unfolding m
    by (rule bit_word_eqI)
      (auto simp: bit_or_iff bit_push_bit_iff bit_drop_bit_eq bit_take_bit_iff)
qed

lemma reverseHexTable_hi: "reverseHexTable (hextable ! unat (drop_bit 4 (b::byte))) = drop_bit 4 b"
  using reverseHexTable_hextable [OF byte_nibbles_hi [of b]] by simp

lemma reverseHexTable_lo: "reverseHexTable (hextable ! unat ((b::byte) AND 15)) = b AND 15"
  using reverseHexTable_hextable [OF byte_nibbles_lo [of b]] by simp

lemma nibble_hi_le: "\<not> 15 < drop_bit 4 (b::byte)"
  using byte_nibbles_hi [of b] by (simp add: word_less_nat_alt)

lemma nibble_lo_le: "\<not> 15 < (b::byte) AND 15"
  using byte_nibbles_lo [of b] by (simp add: word_less_nat_alt)

lemma EncodeToString_Cons:
  "EncodeToString (b # bs) =
     hextable ! unat (drop_bit 4 b) # hextable ! unat (b AND 15) # EncodeToString bs"
  by (simp add: EncodeToString_def)

lemma length_EncodeToString: "length (EncodeToString bs) = 2 * length bs"
  by (induction bs) (simp_all add: EncodeToString_def)

lemma Decode_loop_EncodeToString:
  "i + length bs \<le> length dst \<Longrightarrow>
   Decode_loop dst i (EncodeToString bs) =
     Inr (take i dst @ bs @ drop (i + length bs) dst, i + length bs, None)"
proof (induction bs arbitrary: dst i)
  case Nil
  show ?case by (simp add: EncodeToString_def)
next
  case (Cons b bs)
  from Cons.prems have i: "i < length dst" and le: "Suc i + length bs \<le> length (dst[i := b])"
    by simp_all
  have t: "take (Suc i) (dst[i := b]) = take i dst @ [b]"
    using i by (simp add: take_Suc_conv_app_nth)
  have d: "drop (Suc i + length bs) (dst[i := b]) = drop (Suc i + length bs) dst"
    by simp
  have "Decode_loop dst i (EncodeToString (b # bs)) =
      Decode_loop (dst[i := b]) (Suc i) (EncodeToString bs)"
    using i
    by (simp add: EncodeToString_Cons reverseHexTable_hi reverseHexTable_lo nibble_hi_le
        nibble_lo_le byte_nibbles_join Let_def)
  also have "\<dots> = Inr (take (Suc i) (dst[i := b]) @ bs @
      drop (Suc i + length bs) (dst[i := b]), Suc i + length bs, None)"
    by (rule Cons.IH [OF le])
  finally show ?case
    by (simp add: t d)
qed

lemma Decode_EncodeToString:
  "length bs = n \<Longrightarrow> Decode (replicate n 0) (EncodeToString bs) = Inr (bs, n, None)"
  using Decode_loop_EncodeToString [of 0 bs "replicate n 0"] by (simp add: Decode_def)

lemma TrimPrefix_addr: "TrimPrefix (stringerHex ''addr'' data) ''addr:'' = EncodeToString data"
  by (simp add: TrimPrefix_def stringerHex_def)

text \<open>
  Decoding the text form of 32 content bytes followed by six checksum bytes: the content
  comes back, and the only possible error is a checksum mismatch.
\<close>
lemma Address_UnmarshalText_stringerHex:
  assumes "length cs = 6"
  shows "Address_UnmarshalText H (stringerHex ''addr'' (Rep_bytes32 a @ cs)) =
    Inr (a, if take 6 (Rep_bytes32 (H (Rep_bytes32 a))) \<noteq> cs then Some BadChecksum else None)"
proof -
  have "Decode (replicate (32 + 6) 0) (EncodeToString (Rep_bytes32 a @ cs)) =
      Inr (Rep_bytes32 a @ cs, 32 + 6, None)"
    by (rule Decode_EncodeToString) (simp add: assms)
  then show ?thesis
    by (simp add: Address_UnmarshalText_def TrimPrefix_addr assms Rep_bytes32_inverse)
qed

lemma Address_text_roundtrip:
  "Address_UnmarshalText H (Address_MarshalText H a) = Inr (a, None)"
  by (simp add: Address_MarshalText_def Address_String_def Let_def
      Address_UnmarshalText_stringerHex)

lemma Address_text_altered:
  assumes "a' \<noteq> a"
  shows "Address_UnmarshalText H
      (stringerHex ''addr'' (Rep_bytes32 a' @ take 6 (Rep_bytes32 (H (Rep_bytes32 a))))) =
    Inr (a', if take 6 (Rep_bytes32 (H (Rep_bytes32 a'))) = take 6 (Rep_bytes32 (H (Rep_bytes32 a)))
             then None else Some BadChecksum)"
  by (simp add: Address_UnmarshalText_stringerHex)

lemma card_byte_lists: "card {bs :: byte list. length bs = n} = 256 ^ n"
  using card_lists_length_eq [of "UNIV :: byte set" n] by (simp add: card_word)

lemma finite_byte_lists: "finite {bs :: byte list. length bs = n}"
  using finite_lists_length_eq [of "UNIV :: byte set" n] by simp

text \<open>
  A six-byte checksum cannot tell all 32-byte contents apart, whatever the hash function:
  some address decodes without error from the text of another address's checksum.
\<close>
lemma Address_checksum_collision:
  "\<exists>a a'. a' \<noteq> a \<and>
     Address_UnmarshalText H
       (stringerHex ''addr'' (Rep_bytes32 a' @ take 6 (Rep_bytes32 (H (Rep_bytes32 a))))) =
     Inr (a', None)"
proof -
  let ?g = "\<lambda>bs. take 6 (Rep_bytes32 (H bs))"
  let ?S = "{bs :: byte list. length bs = 32}"
  have "?g ` ?S \<subseteq> {bs. length bs = 6}"
    by auto
  then have "card (?g ` ?S) \<le> card {bs :: byte list. length bs = 6}"
    by (intro card_mono finite_byte_lists)
  also have "\<dots> < card ?S"
    by (simp only: card_byte_lists) simp
  finally have "\<not> inj_on ?g ?S"
    by (rule pigeonhole)
  then obtain x y where x: "length x = 32" and y: "length y = 32" and ne: "x \<noteq> y"
    and eq: "?g x = ?g y"
    by (auto simp: inj_on_def)
  let ?a = "Abs_bytes32 x" and ?a' = "Abs_bytes32 y"
  have rx: "Rep_bytes32 ?a = x" and ry: "Rep_bytes32 ?a' = y"
    using x y by (simp_all add: Abs_bytes32_inverse)
  have "?a' \<noteq> ?a"
    using ne rx ry by metis
  moreover have "Address_UnmarshalText H
       (stringerHex ''addr'' (Rep_bytes32 ?a' @ take 6 (Rep_bytes32 (H (Rep_bytes32 ?a))))) =
     Inr (?a', if take 6 (Rep_bytes32 (H (Rep_bytes32 ?a'))) \<noteq>
                  take 6 (Rep_bytes32 (H (Rep_bytes32 ?a)))
               then Some BadChecksum else None)"
    by (rule Address_UnmarshalText_stringerHex) simp
  then have "Address_UnmarshalText H
       (stringerHex ''addr'' (Rep_bytes32 ?a' @ take 6 (Rep_bytes32 (H (Rep_bytes32 ?a))))) =
     Inr (?a', None)"
    using eq by (simp add: rx ry)
  ultimately show ?thesis by blast
qed

end
